theory Spec2Isabelle
  imports Main "HOL-Library.Sublist"
begin

text \<open>
  The typings installer of \<^verbatim>\<open>src/typingsInstaller/nodeTypingsInstaller.ts\<close>: the file log,
  the loader of the types registry, the constructor of \<^verbatim>\<open>NodeTypingsInstaller\<close>, its listener
  for the requests of the server, the install worker and the executor of child processes.
  Methods are functions from the state of the installer to a result, a value or a thrown
  error, and the new state; what the file calls and does not define is a parameter (the
  host).
\<close>

section \<open>Values exchanged with the JavaScript runtime\<close>

text \<open>
  A thrown JavaScript value, as far as \<^verbatim>\<open>nodeTypingsInstaller.ts\<close> reads it: the name,
  the \<^verbatim>\<open>message\<close> and the \<^verbatim>\<open>stack\<close> of an \<^verbatim>\<open>Error\<close>, and the properties \<^verbatim>\<open>stdout\<close> and
  \<^verbatim>\<open>stderr\<close> that \<^verbatim>\<open>execFileSyncAndLog\<close> destructures from the caught value. The caught
  value has type \<^verbatim>\<open>any\<close>, so either property may be \<^verbatim>\<open>undefined\<close> (\<open>None\<close>).
\<close>

datatype js_error =
  JsError (err_name: string) (err_message: string) (err_stack: string)
    (err_stdout: "string option") (err_stderr: "string option")

text \<open>A parsed JSON value; an object is the list of its own properties in enumeration order.\<close>

datatype json =
    JNull
  | JBool bool
  | JNumber int
  | JString string
  | JArray "json list"
  | JObject "(string \<times> json) list"

text \<open>
  \<^verbatim>\<open>TypingInstallerRequestUnion\<close>, the closed union the listener switches on. The
  \<^verbatim>\<open>installPackage\<close> request carries \<^verbatim>\<open>fileName\<close>, \<^verbatim>\<open>packageName\<close>, \<^verbatim>\<open>projectName\<close> and the
  optional \<^verbatim>\<open>projectRootPath\<close>; the \<^verbatim>\<open>inspectValue\<close> request carries
  \<^verbatim>\<open>options.fileNameToRequire\<close>. The payloads of \<^verbatim>\<open>discover\<close> and \<^verbatim>\<open>closeProject\<close> are only
  passed on to the base class.
\<close>

datatype request =
    Discover json
  | CloseProject json
  | TypesRegistryRequest
  | InstallPackage string string string "string option"
  | InspectValue string

text \<open>
  \<^verbatim>\<open>TypingInstallerResponseUnion\<close>: the four responses this file builds, and \<open>OtherResponse\<close>
  (kind and body) for the kinds only the base class sends.
\<close>

datatype response =
    InitializationFailed string
  | TypesRegistryResponse "(string \<times> json) list"
  | PackageInstalled string bool string
  | ValueInspected json
  | OtherResponse string json

fun isInitializationFailed :: "response \<Rightarrow> bool" where
  "isInitializationFailed (InitializationFailed m) = True"
| "isInitializationFailed r = False"

section \<open>The host: everything the file calls and does not define\<close>

text \<open>
  The world \<open>'w\<close> is whatever lies outside the installer object: the file system, the clock,
  the child processes and the state of the base class \<^verbatim>\<open>TypingsInstaller\<close>. The fields are
  the primitives of Node and of the rest of the compiler that this file calls:
  \<^item> \<open>h_appendFileSync file content\<close>: \<^verbatim>\<open>fs.appendFileSync\<close>; \<open>Some e\<close> when it throws \<open>e\<close>;
  \<^item> \<open>h_nowString\<close>, \<open>h_dateNow\<close>, \<open>h_newLine\<close>: \<^verbatim>\<open>nowString()\<close>, \<^verbatim>\<open>Date.now()\<close>, \<^verbatim>\<open>sys.newLine\<close>
    (the line terminator of the platform, which holds no dollar sign);
  \<^item> \<open>h_fileExists\<close>, \<open>h_readFile\<close>: the \<^verbatim>\<open>InstallTypingHost\<close> (\<^verbatim>\<open>sys\<close>);
  \<^item> \<open>h_jsonParse\<close>: \<^verbatim>\<open>JSON.parse\<close>, \<open>Inl e\<close> when it throws; \<open>h_stringifyNames\<close> and
    \<open>h_stringifyResponse\<close>: \<^verbatim>\<open>JSON.stringify\<close> at its two uses;
  \<^item> \<open>h_typeError p\<close>: the \<^verbatim>\<open>TypeError\<close> the engine throws when property \<open>p\<close> is read from
    \<^verbatim>\<open>undefined\<close> or \<^verbatim>\<open>null\<close>;
  \<^item> \<open>h_execFileSync file args cwd\<close>: \<^verbatim>\<open>child_process.execFileSync\<close> with encoding
    \<^verbatim>\<open>utf-8\<close>: \<open>Inr stdout\<close> when it returns, \<open>Inl e\<close> when it throws \<open>e\<close>;
  \<^item> \<open>h_inspectModule\<close>: \<^verbatim>\<open>inspectModule\<close>;
  \<^item> \<open>h_install\<close>, \<open>h_closeProject\<close>: the methods \<^verbatim>\<open>install\<close> and \<^verbatim>\<open>closeProject\<close> of the base
    class, given by the responses they pass to \<^verbatim>\<open>sendResponse\<close> and the world they leave;
  \<^item> \<open>h_ensurePackageDirectoryExists\<close>: the base class method of that name;
  \<^item> \<open>h_basename\<close>, \<open>h_dirname\<close>, \<open>h_join\<close>: \<^verbatim>\<open>path.basename\<close>, \<^verbatim>\<open>path.dirname\<close>, \<^verbatim>\<open>path.join\<close>;
  \<^item> \<open>h_argv0\<close>, \<open>h_pid\<close>: \<^verbatim>\<open>process.argv[0]\<close> and \<^verbatim>\<open>process.pid\<close>;
  \<^item> \<open>h_latestDistTag\<close>, \<open>h_version\<close>, \<open>h_npmLocationArg\<close>: \<^verbatim>\<open>this.latestDistTag\<close>, \<^verbatim>\<open>version\<close>
    and \<^verbatim>\<open>Arguments.NpmLocation\<close>.
\<close>

record 'w host =
  h_appendFileSync :: "string \<Rightarrow> string \<Rightarrow> 'w \<Rightarrow> js_error option \<times> 'w"
  h_nowString :: "'w \<Rightarrow> string"
  h_dateNow :: "'w \<Rightarrow> int"
  h_newLine :: string
  h_fileExists :: "string \<Rightarrow> 'w \<Rightarrow> bool"
  h_readFile :: "string \<Rightarrow> 'w \<Rightarrow> string option"
  h_jsonParse :: "string \<Rightarrow> js_error + json"
  h_stringifyNames :: "string list \<Rightarrow> string"
  h_stringifyResponse :: "response \<Rightarrow> string"
  h_typeError :: "string \<Rightarrow> js_error"
  h_execFileSync :: "string \<Rightarrow> string list \<Rightarrow> string \<Rightarrow> 'w \<Rightarrow> (js_error + string) \<times> 'w"
  h_inspectModule :: "string \<Rightarrow> 'w \<Rightarrow> json \<times> 'w"
  h_install :: "json \<Rightarrow> 'w \<Rightarrow> response list \<times> 'w"
  h_closeProject :: "json \<Rightarrow> 'w \<Rightarrow> response list \<times> 'w"
  h_ensurePackageDirectoryExists :: "string \<Rightarrow> 'w \<Rightarrow> 'w"
  h_basename :: "string \<Rightarrow> string"
  h_dirname :: "string \<Rightarrow> string"
  h_join :: "string list \<Rightarrow> string"
  h_argv0 :: string
  h_pid :: string
  h_latestDistTag :: string
  h_version :: string
  h_npmLocationArg :: string

section \<open>The installer object and its effects\<close>

text \<open>
  The mutable fields of \<^verbatim>\<open>FileLog\<close> (\<open>logFile\<close>) and of \<^verbatim>\<open>NodeTypingsInstaller\<close> (\<open>npmPath\<close>,
  \<open>typesRegistry\<close>, \<open>delayedInitializationError\<close>, of which only the message varies), the
  messages passed to \<^verbatim>\<open>process.send\<close> so far (\<open>outbound\<close>), the calls of
  \<^verbatim>\<open>nodeExecFileSync\<close> so far as (file, args, cwd) (\<open>execCalls\<close>), and the world.
\<close>

record 'w installer =
  logFile :: "string option"
  npmPath :: string
  typesRegistry :: "(string \<times> json) list"
  delayedInitializationError :: "string option"
  outbound :: "response list"
  execCalls :: "(string \<times> string list \<times> string) list"
  world :: 'w

text \<open>
  A method body: it changes the state and either returns a value (\<open>Inr\<close>) or throws
  (\<open>Inl\<close>); what it changed before throwing stays changed.
\<close>

type_synonym ('a, 'w) action = "'w installer \<Rightarrow> (js_error + 'a) \<times> 'w installer"

definition result :: "'a \<Rightarrow> ('a, 'w) action" where
  "result x s = (Inr x, s)"

definition andThen :: "('a, 'w) action \<Rightarrow> ('a \<Rightarrow> ('b, 'w) action) \<Rightarrow> ('b, 'w) action" where
  "andThen m f s = (case m s of (Inl e, s') \<Rightarrow> (Inl e, s') | (Inr x, s') \<Rightarrow> f x s')"

definition tryCatch :: "('a, 'w) action \<Rightarrow> (js_error \<Rightarrow> ('a, 'w) action) \<Rightarrow> ('a, 'w) action" where
  "tryCatch m handler s = (case m s of (Inl e, s') \<Rightarrow> handler e s' | (Inr x, s') \<Rightarrow> (Inr x, s'))"

definition evaluated :: "js_error + 'a \<Rightarrow> ('a, 'w) action" where
  "evaluated r s = (r, s)"

section \<open>FileLog\<close>

definition isEnabled :: "'w installer \<Rightarrow> bool" where
  "isEnabled s = (logFile s \<noteq> None)"

text \<open>
  \<^verbatim>\<open>writeLine\<close>: nothing when \<open>logFile\<close> is not a string; otherwise the append, inside
  \<^verbatim>\<open>try\<close>, and on a throw \<open>logFile\<close> becomes \<^verbatim>\<open>undefined\<close>.
\<close>

definition writeLine :: "'w host \<Rightarrow> string \<Rightarrow> (unit, 'w) action" where
  "writeLine h text s =
     (case logFile s of
        None \<Rightarrow> (Inr (), s)
      | Some file \<Rightarrow>
          (case h_appendFileSync h file
                  (''['' @ h_nowString h (world s) @ ''] '' @ text @ h_newLine h) (world s) of
             (None, w) \<Rightarrow> (Inr (), s\<lparr>world := w\<rparr>)
           | (Some e, w) \<Rightarrow> (Inr (), s\<lparr>world := w, logFile := None\<rparr>)))"

text \<open>The guard \<^verbatim>\<open>if (this.log.isEnabled()) { ... }\<close> around a statement.\<close>

definition ifEnabled :: "(unit, 'w) action \<Rightarrow> (unit, 'w) action" where
  "ifEnabled m s = (if isEnabled s then m s else (Inr (), s))"

text \<open>A sequence of \<^verbatim>\<open>writeLine\<close> calls, stopping at a throw.\<close>

fun writeLines :: "'w host \<Rightarrow> string list \<Rightarrow> (unit, 'w) action" where
  "writeLines h [] s = (Inr (), s)"
| "writeLines h (t # ts) s =
     (case writeLine h t s of
        (Inl e, s') \<Rightarrow> (Inl e, s')
      | (Inr u, s') \<Rightarrow> writeLines h ts s')"

section \<open>indent\<close>

text \<open>
  \<^verbatim>\<open>str.replace(/\r?\n/, r)\<close>: the pattern has no \<^verbatim>\<open>g\<close> flag, so only the leftmost match
  (a line feed, with the carriage return before it when there is one) is replaced.
\<close>

fun replaceFirstNewline :: "string \<Rightarrow> string \<Rightarrow> string" where
  "replaceFirstNewline [] r = []"
| "replaceFirstNewline (c # cs) r =
     (if c = CHR 0x0D \<and> take 1 cs = [CHR 0x0A] then r @ drop 1 cs
      else if c = CHR 0x0A then r @ cs
      else c # replaceFirstNewline cs r)"

text \<open>
  \<^verbatim>\<open>indent(newline, str)\<close>. The call \<^verbatim>\<open>str.replace\<close> on \<^verbatim>\<open>undefined\<close> throws a
  \<^verbatim>\<open>TypeError\<close>.
\<close>

definition indent :: "'w host \<Rightarrow> string \<Rightarrow> string option \<Rightarrow> js_error + string" where
  "indent h newline str =
     (case str of
        None \<Rightarrow> Inl (h_typeError h ''replace'')
      | Some s \<Rightarrow> Inr (newline @ ''    '' @ replaceFirstNewline s (newline @ ''    '')))"

section \<open>Helpers of the compiler that the file calls\<close>

text \<open>\<^verbatim>\<open>args.join(" ")\<close>.\<close>

fun joinWith :: "string \<Rightarrow> string list \<Rightarrow> string" where
  "joinWith sep [] = []"
| "joinWith sep [x] = x"
| "joinWith sep (x # y # ys) = x @ sep @ joinWith sep (y # ys)"

text \<open>Decimal rendering of a number inside a template string.\<close>

fun showNat :: "nat \<Rightarrow> string" where
  "showNat n =
     (if n < 10 then [char_of (48 + n)]
      else showNat (n div 10) @ [char_of (48 + n mod 10)])"

declare showNat.simps [simp del]

definition showInt :: "int \<Rightarrow> string" where
  "showInt i = (if i < 0 then ''-'' @ showNat (nat (- i)) else showNat (nat i))"

text \<open>
  Modelled from the spec: \<^verbatim>\<open>stringContains\<close> is defined in the compiler's core utilities,
  not in this file. "The path contains a space": the second string occurs in the first.
\<close>

fun stringContains :: "string \<Rightarrow> string \<Rightarrow> bool" where
  "stringContains [] sub = (sub = [])"
| "stringContains (c # cs) sub = (prefix sub (c # cs) \<or> stringContains cs sub)"

text \<open>
  Modelled from the spec: \<^verbatim>\<open>getRootLength\<close> is defined in the compiler's path utilities,
  not in this file. A path is a string of components separated by \<^verbatim>\<open>/\<close>, and "the
  filesystem root" is \<^verbatim>\<open>/\<close>: a path that starts with it has a root of length one.
\<close>

definition getRootLength :: "string \<Rightarrow> nat" where
  "getRootLength p = (if take 1 p = ''/'' then 1 else 0)"

text \<open>
  Modelled from the spec: \<^verbatim>\<open>removeTrailingDirectorySeparator\<close> is defined in the compiler's
  path utilities, not in this file. A separator at the end of a path that is longer than
  its root is no part of the last component.
\<close>

definition removeTrailingDirectorySeparator :: "string \<Rightarrow> string" where
  "removeTrailingDirectorySeparator p =
     (if getRootLength p < length p \<and> last p = CHR ''/'' then butlast p else p)"

text \<open>
  Modelled from the spec: the position of the last separator of a path, zero when there is
  none (\<^verbatim>\<open>path.lastIndexOf(directorySeparator)\<close> in the compiler's path utilities, where the
  root length takes over when there is none).
\<close>

definition lastIndexOfSeparator :: "string \<Rightarrow> nat" where
  "lastIndexOfSeparator p = length (dropWhile (\<lambda>c. c \<noteq> CHR ''/'') (rev p)) - 1"

text \<open>
  Modelled from the spec: \<^verbatim>\<open>getDirectoryPath\<close> is defined in the compiler's path utilities,
  not in this file. "The directory containing" a path, and the "parent" of a directory: the
  path up to its last separator, and never less than its root; the root and the empty path
  are their own parents.
\<close>

definition getDirectoryPath :: "string \<Rightarrow> string" where
  "getDirectoryPath p =
     (if getRootLength p = length p then p
      else take (max (getRootLength p) (lastIndexOfSeparator (removeTrailingDirectorySeparator p)))
             (removeTrailingDirectorySeparator p))"

text \<open>
  Modelled from the spec: \<^verbatim>\<open>combinePaths\<close> is defined in the compiler's path utilities, not
  in this file. The file of a given name in a directory: the directory, a separator
  unless the directory ends with one, and the name.
\<close>

definition combinePaths :: "string \<Rightarrow> string \<Rightarrow> string" where
  "combinePaths p name =
     (if p = [] then name
      else if last p = CHR ''/'' then p @ name
      else p @ ''/'' @ name)"

text \<open>
  Modelled from the spec: \<^verbatim>\<open>normalizeSlashes\<close> is defined in the compiler's path utilities,
  not in this file. Every backslash of the path becomes the separator \<^verbatim>\<open>/\<close>.
\<close>

definition normalizeSlashes :: "string \<Rightarrow> string" where
  "normalizeSlashes p = map (\<lambda>c. if c = CHR 0x5C then CHR ''/'' else c) p"

lemma getDirectoryPath_shorter:
  "getDirectoryPath p \<noteq> p \<Longrightarrow> length (getDirectoryPath p) < length p"
proof -
  assume neq: "getDirectoryPath p \<noteq> p"
  define q where "q = removeTrailingDirectorySeparator p"
  define n where "n = max (getRootLength p) (lastIndexOfSeparator q)"
  from neq have gd: "getDirectoryPath p = take n q"
    by (simp add: getDirectoryPath_def q_def n_def split: if_splits)
  show ?thesis
  proof (cases "q = p")
    case True
    with gd neq have "take n p \<noteq> p" by simp
    then have "n < length p" by (metis take_all linorder_not_less)
    with gd True show ?thesis by simp
  next
    case False
    then have "q = butlast p" and "p \<noteq> []"
      by (auto simp: q_def removeTrailingDirectorySeparator_def split: if_splits)
    then have "length q < length p" by simp
    with gd show ?thesis by simp
  qed
qed

text \<open>
  Modelled from the spec: \<^verbatim>\<open>forEachAncestorDirectory\<close> is defined in the compiler's path
  utilities, not in this file. "Walk upward through ancestor directories (parent,
  grandparent, ...) until a directory is found": call the callback on the directory, return
  its result when it is defined, otherwise go on with the parent, and stop with
  \<^verbatim>\<open>undefined\<close> at the directory that is its own parent, "the filesystem root".
\<close>

function forEachAncestorDirectory :: "string \<Rightarrow> (string \<Rightarrow> 'a option) \<Rightarrow> 'a option" where
  "forEachAncestorDirectory directory callback =
     (case callback directory of
        Some r \<Rightarrow> Some r
      | None \<Rightarrow>
          (if getDirectoryPath directory = directory then None
           else forEachAncestorDirectory (getDirectoryPath directory) callback))"
  by pat_completeness auto
termination
  by (relation "measure (\<lambda>(directory, callback). length directory)")
     (auto simp: getDirectoryPath_shorter)

declare forEachAncestorDirectory.simps [simp del]

text \<open>
  The spec's "ancestor chain" of a directory, nearest first: the directory, its parent, and
  so on up to the directory that is its own parent.
\<close>

function ancestorDirectories :: "string \<Rightarrow> string list" where
  "ancestorDirectories directory =
     (if getDirectoryPath directory = directory then [directory]
      else directory # ancestorDirectories (getDirectoryPath directory))"
  by pat_completeness auto
termination
  by (relation "measure length") (auto simp: getDirectoryPath_shorter)

declare ancestorDirectories.simps [simp del]

text \<open>
  Modelled from the spec: \<^verbatim>\<open>createMapFromTemplate\<close> is defined in the compiler's core
  utilities, not in this file. The spec's "entries mapping": the properties of the
  template object, each key with its value; a template that is no object (\<^verbatim>\<open>undefined\<close>
  included) has none.
\<close>

fun createMapFromTemplate :: "json option \<Rightarrow> (string \<times> json) list" where
  "createMapFromTemplate (Some (JObject props)) = props"
| "createMapFromTemplate t = []"

text \<open>
  Modelled from the spec: \<^verbatim>\<open>installNpmPackages\<close> is defined with the base class, not in
  this file. The spec: the install command, "fixed sub-command plus a don't run
  install-time scripts safety flag", is invoked "once with all package names batched into
  a single invocation"; the result is whether that invocation failed.
\<close>

definition installNpmPackages ::
  "string \<Rightarrow> string \<Rightarrow> string list \<Rightarrow> (string \<Rightarrow> string list \<Rightarrow> (bool, 'w) action) \<Rightarrow> (bool, 'w) action" where
  "installNpmPackages npm tsVersion packageNames install =
     install npm (''install'' # ''--ignore-scripts'' # packageNames)"

section \<open>NodeTypingsInstaller\<close>

text \<open>The call \<^verbatim>\<open>this.nodeExecFileSync(file, args, { cwd, encoding })\<close>, recorded in \<open>execCalls\<close>.\<close>

definition nodeExecFileSync :: "'w host \<Rightarrow> string \<Rightarrow> string list \<Rightarrow> string \<Rightarrow> (string, 'w) action" where
  "nodeExecFileSync h file args cwd s =
     (case h_execFileSync h file args cwd (world s) of
        (r, w) \<Rightarrow> (r, s\<lparr>world := w, execCalls := execCalls s @ [(file, args, cwd)]\<rparr>))"

text \<open>
  \<^verbatim>\<open>execFileSyncAndLog\<close>, "returns 'true' in case of error". The \<^verbatim>\<open>catch\<close> block binds
  \<^verbatim>\<open>stdout\<close> and \<^verbatim>\<open>stderr\<close> from the caught value and builds the log line, calling \<^verbatim>\<open>indent\<close>
  on each, before \<^verbatim>\<open>writeLine\<close>; that \<^verbatim>\<open>writeLine\<close> has no \<^verbatim>\<open>isEnabled\<close> guard.
\<close>

definition execFileSyncAndLog :: "'w host \<Rightarrow> string \<Rightarrow> string list \<Rightarrow> string \<Rightarrow> (bool, 'w) action" where
  "execFileSyncAndLog h file args cwd =
     andThen (ifEnabled (writeLine h (''Exec: '' @ file @ '' '' @ joinWith '' '' args)))
       (\<lambda>u. tryCatch
          (andThen (nodeExecFileSync h file args cwd)
             (\<lambda>stdout.
                andThen
                  (ifEnabled
                     (andThen (evaluated (indent h (h_newLine h) (Some stdout)))
                        (\<lambda>t. writeLine h (''    Succeeded. stdout:'' @ t))))
                  (\<lambda>u. result False)))
          (\<lambda>error.
             andThen (evaluated (indent h (h_newLine h) (err_stdout error)))
               (\<lambda>out.
                  andThen (evaluated (indent h (h_newLine h) (err_stderr error)))
                    (\<lambda>err.
                       andThen
                         (writeLine h
                            (''    Failed. stdout:'' @ out @ h_newLine h @ ''    stderr:'' @ err))
                         (\<lambda>u. result True)))))"

text \<open>
  \<^verbatim>\<open>installWorker\<close>. The callback handed to \<^verbatim>\<open>installNpmPackages\<close> runs
  \<^verbatim>\<open>execFileSyncAndLog\<close> in \<^verbatim>\<open>cwd\<close>; \<^verbatim>\<open>onRequestCompleted\<close> is called last.
\<close>

definition installWorker ::
  "'w host \<Rightarrow> int \<Rightarrow> string list \<Rightarrow> string \<Rightarrow> (bool \<Rightarrow> (unit, 'w) action) \<Rightarrow> (unit, 'w) action" where
  "installWorker h requestId packageNames cwd onRequestCompleted =
     andThen
       (ifEnabled
          (writeLine h
             (''#'' @ showInt requestId @ '' with arguments'' @ [CHR 0x27]
                @ h_stringifyNames h packageNames @ [CHR 0x27] @ ''.'')))
       (\<lambda>u s0.
          andThen
            (installNpmPackages (npmPath s0) (h_version h) packageNames
               (\<lambda>file args. execFileSyncAndLog h file args cwd))
            (\<lambda>hasError.
               andThen
                 (ifEnabled
                    (\<lambda>s. writeLine h
                       (''npm install #'' @ showInt requestId @ '' took: ''
                          @ showInt (h_dateNow h (world s) - h_dateNow h (world s0)) @ '' ms'') s))
                 (\<lambda>u. onRequestCompleted (\<not> hasError)))
            s0)"

text \<open>\<^verbatim>\<open>sendResponse\<close>: \<^verbatim>\<open>process.send\<close> between two guarded log lines.\<close>

definition processSend :: "response \<Rightarrow> (unit, 'w) action" where
  "processSend r s = (Inr (), s\<lparr>outbound := outbound s @ [r]\<rparr>)"

definition sendResponse :: "'w host \<Rightarrow> response \<Rightarrow> (unit, 'w) action" where
  "sendResponse h r =
     andThen
       (ifEnabled
          (writeLine h (''Sending response:'' @ [CHR 0x0A] @ ''    '' @ h_stringifyResponse h r)))
       (\<lambda>u. andThen (processSend r)
          (\<lambda>u. ifEnabled (writeLine h ''Response has been sent.'')))"

text \<open>The responses a base class method sends, each through \<^verbatim>\<open>sendResponse\<close>.\<close>

fun sendAll :: "'w host \<Rightarrow> response list \<Rightarrow> (unit, 'w) action" where
  "sendAll h [] = result ()"
| "sendAll h (r # rs) = andThen (sendResponse h r) (\<lambda>u. sendAll h rs)"

text \<open>\<^verbatim>\<open>getDirectoryOfPackageJson\<close>: the callback returns the directory that holds a manifest.\<close>

definition getDirectoryOfPackageJson :: "'w host \<Rightarrow> string \<Rightarrow> 'w \<Rightarrow> string option" where
  "getDirectoryOfPackageJson h fileName w =
     forEachAncestorDirectory (getDirectoryPath fileName)
       (\<lambda>directory.
          if h_fileExists h (combinePaths directory ''package.json'') w then Some directory
          else None)"

text \<open>
  The property read \<^verbatim>\<open>content.entries\<close> on the parsed value: a \<^verbatim>\<open>TypeError\<close> on \<^verbatim>\<open>null\<close>,
  the property's value on an object that has it, and nothing to copy otherwise.
\<close>

fun entriesOf :: "'w host \<Rightarrow> json \<Rightarrow> js_error + json option" where
  "entriesOf h JNull = Inl (h_typeError h ''entries'')"
| "entriesOf h (JObject props) = Inr (map_of props ''entries'')"
| "entriesOf h v = Inr None"

definition loadTypesRegistryFile :: "'w host \<Rightarrow> string \<Rightarrow> ((string \<times> json) list, 'w) action" where
  "loadTypesRegistryFile h typesRegistryFilePath s =
     (if \<not> h_fileExists h typesRegistryFilePath (world s)
      then andThen
             (ifEnabled
                (writeLine h
                   (''Types registry file '' @ [CHR 0x27] @ typesRegistryFilePath @ [CHR 0x27]
                      @ '' does not exist'')))
             (\<lambda>u. result []) s
      else tryCatch
             (andThen
                (evaluated
                   (h_jsonParse h
                      (case h_readFile h typesRegistryFilePath (world s) of
                         None \<Rightarrow> ''undefined''
                       | Some content \<Rightarrow> content)))
                (\<lambda>content. andThen (evaluated (entriesOf h content))
                   (\<lambda>entries. result (createMapFromTemplate entries))))
             (\<lambda>e. andThen
                (ifEnabled
                   (writeLine h
                      (''Error when loading types registry file '' @ [CHR 0x27]
                         @ typesRegistryFilePath @ [CHR 0x27] @ '': '' @ err_message e @ '', ''
                         @ err_stack e)))
                (\<lambda>u. result [])) s)"

definition typesRegistryPackageName :: string where
  "typesRegistryPackageName = ''types-registry''"

definition getTypesRegistryFileLocation :: "string \<Rightarrow> string" where
  "getTypesRegistryFileLocation globalTypingsCacheLocation =
     combinePaths (normalizeSlashes globalTypingsCacheLocation)
       (''node_modules/'' @ typesRegistryPackageName @ ''/index.json'')"

definition getDefaultNPMLocation :: "'w host \<Rightarrow> string \<Rightarrow> string" where
  "getDefaultNPMLocation h processName =
     (if prefix ''node'' (h_basename h processName)
      then [CHR 0x22] @ h_join h [h_dirname h (h_argv0 h), ''npm''] @ [CHR 0x22]
      else ''npm'')"

text \<open>
  The path the constructor stores in \<^verbatim>\<open>this.npmPath\<close>: \<^verbatim>\<open>npmLocation\<close> when it is passed,
  else the default; then, "if the NPM path contains spaces and isn't wrapped in quotes, do
  so", the test for the quotes being that the first character is no double quote.
\<close>

definition resolvedNpmPath :: "'w host \<Rightarrow> string option \<Rightarrow> string" where
  "resolvedNpmPath h npmLocation =
     (case npmLocation of Some l \<Rightarrow> l | None \<Rightarrow> getDefaultNPMLocation h (h_argv0 h))"

definition quotedNpmPath :: "string \<Rightarrow> string" where
  "quotedNpmPath p =
     (if stringContains p '' '' \<and> take 1 p \<noteq> [CHR 0x22] then [CHR 0x22] @ p @ [CHR 0x22]
      else p)"

text \<open>
  The constructor of \<^verbatim>\<open>NodeTypingsInstaller\<close>, from the assignment of \<^verbatim>\<open>npmPath\<close> on (the
  base class constructor only sets base class state), in its statements: the two log lines
  about the process and the NPM location; \<^verbatim>\<open>ensurePackageDirectoryExists\<close>; the \<^verbatim>\<open>try\<close>
  statement that updates the \<^verbatim>\<open>types-registry\<close> package and, in its \<^verbatim>\<open>catch\<close>, stores the
  failure "to report it later"; the load of the registry file. \<open>log\<close> is the \<open>logFile\<close> of
  the \<^verbatim>\<open>FileLog\<close> the constructor is given.
\<close>

definition logNpmLocation :: "'w host \<Rightarrow> string option \<Rightarrow> (unit, 'w) action" where
  "logNpmLocation h npmLocation =
     ifEnabled
       (andThen (writeLine h (''Process id: '' @ h_pid h))
          (\<lambda>u s. writeLine h
             (''NPM location: '' @ npmPath s @ '' (explicit '' @ [CHR 0x27] @ h_npmLocationArg h
                @ [CHR 0x27] @ '' '' @ (if npmLocation = None then ''not '' else [])
                @ '' provided)'') s))"

definition updateTypesRegistryPackage :: "'w host \<Rightarrow> string \<Rightarrow> (unit, 'w) action" where
  "updateTypesRegistryPackage h globalTypingsCacheLocation =
     tryCatch
       (andThen
          (ifEnabled
             (writeLine h (''Updating '' @ typesRegistryPackageName @ '' npm package...'')))
          (\<lambda>u s. andThen
             (execFileSyncAndLog h (npmPath s)
                [''install'', ''--ignore-scripts'',
                 typesRegistryPackageName @ ''@'' @ h_latestDistTag h]
                globalTypingsCacheLocation)
             (\<lambda>failed. ifEnabled
                (writeLine h (''Updated '' @ typesRegistryPackageName @ '' npm package'')))
             s))
       (\<lambda>e. andThen
          (ifEnabled
             (writeLine h
                (''Error updating '' @ typesRegistryPackageName @ '' package: ''
                   @ err_message e)))
          (\<lambda>u s. (Inr (), s\<lparr>delayedInitializationError := Some (err_message e)\<rparr>)))"

definition newNodeTypingsInstaller ::
  "'w host \<Rightarrow> string \<Rightarrow> string option \<Rightarrow> string option \<Rightarrow> 'w \<Rightarrow> (js_error + unit) \<times> 'w installer" where
  "newNodeTypingsInstaller h globalTypingsCacheLocation npmLocation log w =
     andThen (logNpmLocation h npmLocation)
       (\<lambda>u. andThen
          (\<lambda>s. (Inr (), s\<lparr>world := h_ensurePackageDirectoryExists h globalTypingsCacheLocation (world s)\<rparr>))
          (\<lambda>u. andThen (updateTypesRegistryPackage h globalTypingsCacheLocation)
             (\<lambda>u. andThen
                (loadTypesRegistryFile h (getTypesRegistryFileLocation globalTypingsCacheLocation))
                (\<lambda>registry s. (Inr (), s\<lparr>typesRegistry := registry\<rparr>)))))
       \<lparr>logFile = log, npmPath = quotedNpmPath (resolvedNpmPath h npmLocation),
        typesRegistry = [], delayedInitializationError = None, outbound = [], execCalls = [],
        world = w\<rparr>"

text \<open>
  The listener that \<^verbatim>\<open>listen\<close> registers for \<^verbatim>\<open>message\<close>. In \<^verbatim>\<open>installPackage\<close>,
  \<^verbatim>\<open>a || b\<close> takes \<^verbatim>\<open>b\<close> when \<^verbatim>\<open>a\<close> is \<^verbatim>\<open>undefined\<close> or the empty string, and \<^verbatim>\<open>if (cwd)\<close>
  fails on both too.
\<close>

definition installPackageMessage :: "bool \<Rightarrow> string \<Rightarrow> string" where
  "installPackageMessage success packageName =
     (if success then ''Package '' @ packageName @ '' installed.''
      else ''There was an error installing '' @ packageName @ ''.'')"

text \<open>The first statement of the listener: the stored failure is sent, then cleared.\<close>

definition reportInitializationFailed :: "'w host \<Rightarrow> (unit, 'w) action" where
  "reportInitializationFailed h s =
     (case delayedInitializationError s of
        Some m \<Rightarrow>
          andThen (sendResponse h (InitializationFailed m))
            (\<lambda>u s'. (Inr (), s'\<lparr>delayedInitializationError := None\<rparr>)) s
      | None \<Rightarrow> (Inr (), s))"

text \<open>
  The object the \<^verbatim>\<open>typesRegistry\<close> branch of the listener fills from the map, starting from
  \<^verbatim>\<open>{}\<close>, with \<^verbatim>\<open>typesRegistry[key] = value\<close> for each entry in turn. Assigning to a key
  the object already has replaces the value. Assigning to \<^verbatim>\<open>__proto__\<close> creates no own
  property (it sets the prototype of the object, or does nothing when the value is not an
  object), so that key is not among the properties \<^verbatim>\<open>process.send\<close> serialises. The list
  holds the own properties in the order of their first assignment (JavaScript enumerates
  integer-like keys before the others; the receiver reads the properties by key).
\<close>

fun assignProperty :: "string \<Rightarrow> json \<Rightarrow> (string \<times> json) list \<Rightarrow> (string \<times> json) list" where
  "assignProperty key v [] = [(key, v)]"
| "assignProperty key v ((k, x) # props) =
     (if k = key then (k, v) # props else (k, x) # assignProperty key v props)"

definition typesRegistryObject :: "(string \<times> json) list \<Rightarrow> (string \<times> json) list" where
  "typesRegistryObject registry =
     foldl (\<lambda>obj (key, v). if key = ''__proto__'' then obj else assignProperty key v obj) [] registry"

text \<open>The second statement of the listener: the \<^verbatim>\<open>switch\<close> on \<^verbatim>\<open>req.kind\<close>.\<close>

definition handleRequest :: "'w host \<Rightarrow> request \<Rightarrow> (unit, 'w) action" where
  "handleRequest h req =
     (case req of
        Discover d \<Rightarrow>
          (\<lambda>s. case h_install h d (world s) of (rs, w) \<Rightarrow> sendAll h rs (s\<lparr>world := w\<rparr>))
      | CloseProject c \<Rightarrow>
          (\<lambda>s. case h_closeProject h c (world s) of (rs, w) \<Rightarrow> sendAll h rs (s\<lparr>world := w\<rparr>))
      | TypesRegistryRequest \<Rightarrow>
          (\<lambda>s. sendResponse h (TypesRegistryResponse (typesRegistryObject (typesRegistry s))) s)
      | InstallPackage fileName packageName projectName projectRootPath \<Rightarrow>
          (\<lambda>s. case (case getDirectoryOfPackageJson h fileName (world s) of
                        Some d \<Rightarrow> if d \<noteq> [] then Some d else projectRootPath
                      | None \<Rightarrow> projectRootPath) of
                  Some cwd \<Rightarrow>
                    if cwd \<noteq> []
                    then installWorker h (- 1) [packageName] cwd
                           (\<lambda>success. sendResponse h
                              (PackageInstalled projectName success
                                 (installPackageMessage success packageName))) s
                    else sendResponse h
                           (PackageInstalled projectName False
                              ''Could not determine a project root path.'') s
                | None \<Rightarrow>
                    sendResponse h
                      (PackageInstalled projectName False
                         ''Could not determine a project root path.'') s)
      | InspectValue fileNameToRequire \<Rightarrow>
          (\<lambda>s. case h_inspectModule h fileNameToRequire (world s) of
                  (v, w) \<Rightarrow> sendResponse h (ValueInspected v) (s\<lparr>world := w\<rparr>)))"

definition onMessage :: "'w host \<Rightarrow> request \<Rightarrow> (unit, 'w) action" where
  "onMessage h req = andThen (reportInitializationFailed h) (\<lambda>u. handleRequest h req)"

text \<open>
  The messages delivered to the listener, one after the other. A throw of the listener is
  an uncaught exception: the handler the script registers when the log is enabled at
  startup writes a line and the process goes on; with no handler the process ends, and
  the messages left are not received.
\<close>

fun listen :: "'w host \<Rightarrow> bool \<Rightarrow> request list \<Rightarrow> 'w installer \<Rightarrow> 'w installer" where
  "listen h uncaughtHandler [] s = s"
| "listen h uncaughtHandler (req # reqs) s =
     (case onMessage h req s of
        (Inr u, s') \<Rightarrow> listen h uncaughtHandler reqs s'
      | (Inl e, s') \<Rightarrow>
          (if uncaughtHandler
           then listen h uncaughtHandler reqs
                  (snd (writeLine h
                          (''Unhandled exception: '' @ err_name e @ '': '' @ err_message e
                             @ '' at '' @ err_stack e) s'))
           else s'))"

section \<open>Observations the statements are about\<close>

text \<open>
  \<open>extends s out calls s'\<close>: from \<open>s\<close> to \<open>s'\<close> the messages \<open>out\<close> were sent and the child
  processes \<open>calls\<close> were launched, in this order; the stored failure, \<open>npmPath\<close> and the
  registry are the same; the log is what it was or has been disabled.
\<close>

definition extends ::
  "'w installer \<Rightarrow> response list \<Rightarrow> (string \<times> string list \<times> string) list \<Rightarrow> 'w installer \<Rightarrow> bool" where
  "extends s out calls s' =
     (outbound s' = outbound s @ out \<and> execCalls s' = execCalls s @ calls \<and>
      delayedInitializationError s' = delayedInitializationError s \<and>
      npmPath s' = npmPath s \<and> typesRegistry s' = typesRegistry s \<and>
      (logFile s' = None \<or> logFile s' = logFile s))"

text \<open>An action that only writes to the log: it returns, and sends and launches nothing.\<close>

definition logging :: "(unit, 'w) action \<Rightarrow> bool" where
  "logging m = (\<forall>s. fst (m s) = Inr () \<and> extends s [] [] (snd (m s)))"

text \<open>
  The text \<^verbatim>\<open>loadTypesRegistryFile\<close> hands to \<^verbatim>\<open>JSON.parse\<close>: the content of the file, or
  the text of \<^verbatim>\<open>undefined\<close> when \<^verbatim>\<open>readFile\<close> returns it.
\<close>

definition registryFileText :: "'w host \<Rightarrow> string \<Rightarrow> 'w \<Rightarrow> string" where
  "registryFileText h path w =
     (case h_readFile h path w of None \<Rightarrow> ''undefined'' | Some content \<Rightarrow> content)"

text \<open>The state in which \<^verbatim>\<open>execFileSyncAndLog\<close> launches the child process.\<close>

definition launchState :: "'w host \<Rightarrow> string \<Rightarrow> string list \<Rightarrow> 'w installer \<Rightarrow> 'w installer" where
  "launchState h file args s =
     snd (ifEnabled (writeLine h (''Exec: '' @ file @ '' '' @ joinWith '' '' args)) s)"

text \<open>
  The working directory the listener resolves for an \<^verbatim>\<open>installPackage\<close> request: the
  directory of the manifest or else the root path of the request, when it is a non-empty
  string.
\<close>

definition resolvedCwd :: "'w host \<Rightarrow> string \<Rightarrow> string option \<Rightarrow> 'w \<Rightarrow> string option" where
  "resolvedCwd h fileName projectRootPath w =
     (case (case getDirectoryOfPackageJson h fileName w of
              Some d \<Rightarrow> if d \<noteq> [] then Some d else projectRootPath
            | None \<Rightarrow> projectRootPath) of
        Some cwd \<Rightarrow> if cwd \<noteq> [] then Some cwd else None
      | None \<Rightarrow> None)"

text \<open>The stored failure as the message the listener sends first.\<close>

definition pendingResponses :: "'w installer \<Rightarrow> response list" where
  "pendingResponses s =
     (case delayedInitializationError s of Some m \<Rightarrow> [InitializationFailed m] | None \<Rightarrow> [])"

section \<open>Concrete hosts, for the instances of the theorems\<close>

text \<open>
  A world that is the list of the lines appended to the log so far. Appending to
  \<^verbatim>\<open>/readonly/ti.log\<close> throws; the files are those of \<open>files\<close> with their contents; every
  child process ends as \<open>execOutcome\<close> says; \<open>sampleJsonParse\<close> stands for \<^verbatim>\<open>JSON.parse\<close> on
  the registry file of the spec's example, on the texts \<^verbatim>\<open>{}\<close>, \<^verbatim>\<open>null\<close> and \<^verbatim>\<open>5\<close>, and on the
  texts that are not JSON; the instances parse no other text.
\<close>

definition sampleError :: js_error where
  "sampleError = JsError ''Error'' ''EACCES: permission denied'' ''Error: EACCES'' None None"

text \<open>
  The error \<^verbatim>\<open>execFileSync\<close> throws when the executable cannot be spawned: it carries no
  \<^verbatim>\<open>stdout\<close> and no \<^verbatim>\<open>stderr\<close>.
\<close>

definition spawnError :: js_error where
  "spawnError = JsError ''Error'' ''spawnSync npm ENOENT'' ''Error: spawnSync npm ENOENT'' None None"

definition sampleRegistryText :: string where
  "sampleRegistryText =
     ''{'' @ [CHR 0x22] @ ''entries'' @ [CHR 0x22] @ '':{'' @ [CHR 0x22] @ ''lodash'' @ [CHR 0x22]
       @ '':{'' @ [CHR 0x22] @ ''latest'' @ [CHR 0x22] @ '':'' @ [CHR 0x22] @ ''4.0'' @ [CHR 0x22]
       @ ''}}}''"

definition sampleJsonParse :: "string \<Rightarrow> js_error + json" where
  "sampleJsonParse content =
     (if content = sampleRegistryText
      then Inr (JObject [(''entries'', JObject [(''lodash'', JObject [(''latest'', JString ''4.0'')])])])
      else if content = ''{}'' then Inr (JObject [])
      else if content = ''null'' then Inr JNull
      else if content = ''5'' then Inr (JNumber 5)
      else Inl (JsError ''SyntaxError'' ''Unexpected token'' ''SyntaxError: Unexpected token'' None None))"

definition sampleHost ::
  "(string \<times> string) list \<Rightarrow> js_error + string \<Rightarrow> response list \<Rightarrow> response list \<Rightarrow> string list host" where
  "sampleHost files execOutcome installResponses closeResponses =
     \<lparr>h_appendFileSync =
        (\<lambda>file content w.
           if file = ''/readonly/ti.log'' then (Some sampleError, w) else (None, w @ [content])),
      h_nowString = (\<lambda>w. ''12:00:00.000''),
      h_dateNow = (\<lambda>w. int (length w)),
      h_newLine = [CHR 0x0A],
      h_fileExists = (\<lambda>p w. map_of files p \<noteq> None),
      h_readFile = (\<lambda>p w. map_of files p),
      h_jsonParse = sampleJsonParse,
      h_stringifyNames = joinWith '','',
      h_stringifyResponse = (\<lambda>r. ''{}''),
      h_typeError =
        (\<lambda>p. JsError ''TypeError'' (''Cannot read property '' @ p @ '' of undefined'')
               ''TypeError'' None None),
      h_execFileSync = (\<lambda>file args cwd w. (execOutcome, w)),
      h_inspectModule = (\<lambda>f w. (JString f, w)),
      h_install = (\<lambda>d w. (installResponses, w)),
      h_closeProject = (\<lambda>c w. (closeResponses, w)),
      h_ensurePackageDirectoryExists = (\<lambda>d w. w),
      h_basename = (\<lambda>p. rev (takeWhile (\<lambda>c. c \<noteq> CHR ''/'') (rev p))),
      h_dirname = getDirectoryPath,
      h_join = joinWith ''/'',
      h_argv0 = ''/usr/bin/node'',
      h_pid = ''4242'',
      h_latestDistTag = ''latest'',
      h_version = ''3.2'',
      h_npmLocationArg = ''--npmLocation''\<rparr>"

definition sampleInstaller :: "string option \<Rightarrow> string option \<Rightarrow> string list installer" where
  "sampleInstaller log pending =
     \<lparr>logFile = log, npmPath = ''npm'',
      typesRegistry = [(''lodash'', JObject [(''latest'', JString ''4.0'')])],
      delayedInitializationError = pending, outbound = [], execCalls = [], world = []\<rparr>"

lemmas sample_defs = sampleHost_def sampleInstaller_def spawnError_def sampleError_def

lemmas action_defs = andThen_def tryCatch_def result_def evaluated_def ifEnabled_def isEnabled_def
  writeLine_def processSend_def sendResponse_def nodeExecFileSync_def indent_def

lemmas path_defs = getDirectoryPath_def getRootLength_def
  removeTrailingDirectorySeparator_def lastIndexOfSeparator_def combinePaths_def

section \<open>FileLog: writeLine never throws\<close>

lemma writeLine_returns: "fst (writeLine h t s) = Inr ()"
  by (simp add: writeLine_def split: option.splits prod.splits)

lemma writeLine_disabled: "logFile s = None \<Longrightarrow> writeLine h t s = (Inr (), s)"
  by (simp add: writeLine_def)

lemma ifEnabled_writeLine: "ifEnabled (writeLine h t) s = writeLine h t s"
  by (simp add: ifEnabled_def isEnabled_def writeLine_def)

lemma writeLines_disabled: "logFile s = None \<Longrightarrow> writeLines h ts s = (Inr (), s)"
  by (induction ts) (simp_all add: writeLine_disabled)

lemma writeLines_returns: "fst (writeLines h ts s) = Inr ()"
proof (induction ts arbitrary: s)
  case Nil
  then show ?case by simp
next
  case (Cons t ts)
  obtain r s' where w: "writeLine h t s = (r, s')" by (cases "writeLine h t s")
  with writeLine_returns [of h t s] have "r = Inr ()" by simp
  with w Cons show ?case by simp
qed

lemma writeLine_failure:
  assumes "logFile s = Some file"
    and "fst (h_appendFileSync h file
                (''['' @ h_nowString h (world s) @ ''] '' @ t @ h_newLine h) (world s)) = Some e"
  shows "logFile (snd (writeLine h t s)) = None"
  using assms by (auto simp: writeLine_def split: prod.splits option.splits)

section \<open>The replacement of the first line break\<close>

lemma replaceFirstNewline_at_first_line_feed:
  "CHR 0x0A \<notin> set a \<Longrightarrow>
   replaceFirstNewline (a @ CHR 0x0A # rest) r =
     (if a \<noteq> [] \<and> last a = CHR 0x0D then butlast a else a) @ r @ rest"
proof (induction a)
  case Nil
  then show ?case by simp
next
  case (Cons c cs)
  then have IH: "replaceFirstNewline (cs @ CHR 0x0A # rest) r =
     (if cs \<noteq> [] \<and> last cs = CHR 0x0D then butlast cs else cs) @ r @ rest"
    and c: "c \<noteq> CHR 0x0A" and cs: "CHR 0x0A \<notin> set cs" by auto
  show ?case
  proof (cases cs)
    case Nil
    then show ?thesis using c by simp
  next
    case (Cons d ds)
    then have "take 1 (cs @ CHR 0x0A # rest) = [d]" by simp
    moreover from Cons cs have "d \<noteq> CHR 0x0A" by auto
    ultimately show ?thesis using c IH Cons by simp
  qed
qed

lemma replaceFirstNewline_none:
  "CHR 0x0A \<notin> set a \<Longrightarrow> replaceFirstNewline a r = a"
proof (induction a)
  case Nil
  then show ?case by simp
next
  case (Cons c cs)
  then have "take 1 cs \<noteq> [CHR 0x0A]" by (cases cs) auto
  with Cons show ?case by auto
qed

section \<open>Sequencing and logging\<close>

lemma extends_refl: "extends s [] [] s"
  by (simp add: extends_def)

lemma extends_trans:
  "extends s out1 calls1 s1 \<Longrightarrow> extends s1 out2 calls2 s2 \<Longrightarrow>
   extends s (out1 @ out2) (calls1 @ calls2) s2"
  by (auto simp: extends_def)

lemma extends_trans0:
  "extends s [] [] s1 \<Longrightarrow> extends s1 out calls s2 \<Longrightarrow> extends s out calls s2"
  using extends_trans [of s "[]" "[]" s1 out calls s2] by simp

lemma extends_trans1:
  "extends s out calls s1 \<Longrightarrow> extends s1 [] [] s2 \<Longrightarrow> extends s out calls s2"
  using extends_trans [of s out calls s1 "[]" "[]" s2] by simp

lemma logging_writeLine: "logging (writeLine h t)"
  by (auto simp: logging_def writeLine_def extends_def split: option.splits prod.splits)

lemma logging_writeLine_of_state: "logging (\<lambda>s. writeLine h (f s) s)"
  by (auto simp: logging_def writeLine_def extends_def split: option.splits prod.splits)

lemma logging_ifEnabled: "logging m \<Longrightarrow> logging (ifEnabled m)"
  by (simp add: logging_def ifEnabled_def extends_refl)

lemma loggingD: "logging m \<Longrightarrow> \<exists>s1. m s = (Inr (), s1) \<and> extends s [] [] s1"
proof -
  assume "logging m"
  then have "fst (m s) = Inr () \<and> extends s [] [] (snd (m s))" by (simp add: logging_def)
  then show ?thesis by (cases "m s") simp
qed

lemma logging_snd: "logging m \<Longrightarrow> extends s [] [] (snd (m s))"
  by (simp add: logging_def)

lemma logging_andThen:
  assumes "logging m" and "\<And>x. logging (f x)"
  shows "logging (andThen m f)"
proof -
  have "fst (andThen m f s) = Inr () \<and> extends s [] [] (snd (andThen m f s))" for s
  proof -
    obtain s1 where m: "m s = (Inr (), s1)" and e1: "extends s [] [] s1"
      using loggingD [OF assms(1)] by blast
    have "fst (f () s1) = Inr ()" and "extends s1 [] [] (snd (f () s1))"
      using assms(2) by (auto simp: logging_def)
    with m e1 show ?thesis
      by (auto simp: andThen_def intro: extends_trans0)
  qed
  then show ?thesis by (simp add: logging_def)
qed

lemma andThen_logging:
  assumes "logging m"
  shows "\<exists>s1. extends s [] [] s1 \<and> andThen m f s = f () s1"
proof -
  obtain s1 where m: "m s = (Inr (), s1)" and e1: "extends s [] [] s1"
    using loggingD [OF assms] by blast
  then show ?thesis by (auto simp: andThen_def)
qed

lemma andThen_Inr: "m s = (Inr x, s') \<Longrightarrow> andThen m f s = f x s'"
  by (simp add: andThen_def)

lemma andThen_indent_Some:
  "andThen (evaluated (indent h nl (Some out))) f s =
     f (nl @ ''    '' @ replaceFirstNewline out (nl @ ''    '')) s"
  by (simp add: andThen_def evaluated_def indent_def)

lemma writeLine_state:
  "outbound (snd (writeLine h t s)) = outbound s \<and>
   delayedInitializationError (snd (writeLine h t s)) = delayedInitializationError s"
  using logging_snd [OF logging_writeLine, of s h t] by (simp add: extends_def)

section \<open>sendResponse\<close>

lemma sendResponse_effect:
  "fst (sendResponse h r s) = Inr () \<and> extends s [r] [] (snd (sendResponse h r s))"
proof -
  let ?L1 = "ifEnabled (writeLine h (''Sending response:'' @ [CHR 0x0A] @ ''    '' @ h_stringifyResponse h r))"
  let ?L2 = "ifEnabled (writeLine h ''Response has been sent.'')"
  have l1: "logging ?L1" and l2: "logging ?L2"
    by (simp_all add: logging_ifEnabled logging_writeLine)
  obtain s1 where e1: "extends s [] [] s1"
    and r1: "sendResponse h r s = andThen (processSend r) (\<lambda>u. ?L2) s1"
    using andThen_logging [OF l1, of s] unfolding sendResponse_def by blast
  define s2 where "s2 = s1\<lparr>outbound := outbound s1 @ [r]\<rparr>"
  have e2: "extends s1 [r] [] s2" by (simp add: s2_def extends_def)
  have r2: "sendResponse h r s = ?L2 s2"
    by (simp add: r1 andThen_def processSend_def s2_def)
  have "fst (?L2 s2) = Inr ()" and "extends s2 [] [] (snd (?L2 s2))"
    using l2 by (auto simp: logging_def)
  with e1 e2 r2 show ?thesis
    by (auto intro: extends_trans0 extends_trans1)
qed

lemma sendAll_effect:
  "fst (sendAll h rs s) = Inr () \<and> extends s rs [] (snd (sendAll h rs s))"
proof (induction rs arbitrary: s)
  case Nil
  then show ?case by (simp add: result_def extends_refl)
next
  case (Cons r rs)
  obtain s1 where s1: "sendResponse h r s = (Inr (), s1)" and e1: "extends s [r] [] s1"
    using sendResponse_effect [of h r s] by (cases "sendResponse h r s") auto
  have "sendAll h (r # rs) s = sendAll h rs s1"
    by (simp add: andThen_def s1)
  moreover have "extends s (r # rs) [] (snd (sendAll h rs s1))"
    using extends_trans [OF e1 conjunct2 [OF Cons [of s1]]] by simp
  ultimately show ?case using Cons [of s1] by simp
qed

section \<open>execFileSyncAndLog: what it returns and when it throws\<close>

lemma launchState_extends: "extends s [] [] (launchState h file args s)"
  unfolding launchState_def
  by (intro logging_snd logging_ifEnabled logging_writeLine)

lemma execFileSyncAndLog_unfold:
  "execFileSyncAndLog h file args cwd s =
     tryCatch
          (andThen (nodeExecFileSync h file args cwd)
             (\<lambda>stdout.
                andThen
                  (ifEnabled
                     (andThen (evaluated (indent h (h_newLine h) (Some stdout)))
                        (\<lambda>t. writeLine h (''    Succeeded. stdout:'' @ t))))
                  (\<lambda>u. result False)))
          (\<lambda>error.
             andThen (evaluated (indent h (h_newLine h) (err_stdout error)))
               (\<lambda>out.
                  andThen (evaluated (indent h (h_newLine h) (err_stderr error)))
                    (\<lambda>err.
                       andThen
                         (writeLine h
                            (''    Failed. stdout:'' @ out @ h_newLine h @ ''    stderr:'' @ err))
                         (\<lambda>u. result True)))) (launchState h file args s)"
proof -
  obtain s1 where l: "ifEnabled (writeLine h (''Exec: '' @ file @ '' '' @ joinWith '' '' args)) s = (Inr (), s1)"
    using loggingD [OF logging_ifEnabled [OF logging_writeLine]] by blast
  then have "launchState h file args s = s1" by (simp only: launchState_def snd_conv)
  then show ?thesis
    unfolding execFileSyncAndLog_def
    by (simp only: andThen_Inr [of "ifEnabled (writeLine h (''Exec: '' @ file @ '' '' @ joinWith '' '' args))" s "()" s1, OF l])
qed

lemma succeeded_logging:
  "logging (ifEnabled (andThen (evaluated (indent h nl (Some out)))
                        (\<lambda>t. writeLine h (''    Succeeded. stdout:'' @ t))))"
proof -
  have "andThen (evaluated (indent h nl (Some out))) (\<lambda>t. writeLine h (''    Succeeded. stdout:'' @ t))
        = writeLine h (''    Succeeded. stdout:'' @ nl @ ''    '' @ replaceFirstNewline out (nl @ ''    ''))"
    by (rule ext) (simp only: andThen_indent_Some)
  then show ?thesis by (simp only: logging_ifEnabled logging_writeLine)
qed

lemma execFileSyncAndLog_returned:
  assumes "h_execFileSync h file args cwd (world (launchState h file args s)) = (Inr out, w)"
  shows "fst (execFileSyncAndLog h file args cwd s) = Inr False"
    and "extends s [] [(file, args, cwd)] (snd (execFileSyncAndLog h file args cwd s))"
proof -
  let ?s1 = "launchState h file args s"
  define s2 where "s2 = ?s1\<lparr>world := w, execCalls := execCalls ?s1 @ [(file, args, cwd)]\<rparr>"
  have n: "nodeExecFileSync h file args cwd ?s1 = (Inr out, s2)"
    using assms by (simp add: nodeExecFileSync_def s2_def)
  have e2: "extends ?s1 [] [(file, args, cwd)] s2" by (simp add: s2_def extends_def)
  obtain s3 where l: "ifEnabled (andThen (evaluated (indent h (h_newLine h) (Some out)))
                        (\<lambda>t. writeLine h (''    Succeeded. stdout:'' @ t))) s2 = (Inr (), s3)"
    and e3: "extends s2 [] [] s3"
    using loggingD [OF succeeded_logging] by blast
  have r: "execFileSyncAndLog h file args cwd s = (Inr False, s3)"
    by (simp only: execFileSyncAndLog_unfold tryCatch_def andThen_def n l result_def
        sum.case prod.case)
  show "fst (execFileSyncAndLog h file args cwd s) = Inr False" by (simp only: r fst_conv)
  show "extends s [] [(file, args, cwd)] (snd (execFileSyncAndLog h file args cwd s))"
    using extends_trans0 [OF launchState_extends extends_trans1 [OF e2 e3]]
    by (simp only: r snd_conv)
qed

lemma execFileSyncAndLog_threw:
  assumes "h_execFileSync h file args cwd (world (launchState h file args s)) = (Inl e, w)"
  shows "fst (execFileSyncAndLog h file args cwd s) =
           (if err_stdout e = None \<or> err_stderr e = None then Inl (h_typeError h ''replace'')
            else Inr True)"
    and "extends s [] [(file, args, cwd)] (snd (execFileSyncAndLog h file args cwd s))"
proof -
  let ?s1 = "launchState h file args s"
  define s2 where "s2 = ?s1\<lparr>world := w, execCalls := execCalls ?s1 @ [(file, args, cwd)]\<rparr>"
  have n: "nodeExecFileSync h file args cwd ?s1 = (Inl e, s2)"
    using assms by (simp add: nodeExecFileSync_def s2_def)
  have e2: "extends ?s1 [] [(file, args, cwd)] s2" by (simp add: s2_def extends_def)
  have e02: "extends s [] [(file, args, cwd)] s2"
    using extends_trans0 [OF launchState_extends e2] .
  have "\<exists>s3. extends s2 [] [] s3 \<and> execFileSyncAndLog h file args cwd s =
           (if err_stdout e = None \<or> err_stderr e = None then Inl (h_typeError h ''replace'')
            else Inr True, s3)"
  proof (cases "err_stdout e")
    case None
    have "execFileSyncAndLog h file args cwd s = (Inl (h_typeError h ''replace''), s2)"
      by (simp only: execFileSyncAndLog_unfold tryCatch_def andThen_def n None
          evaluated_def indent_def option.case sum.case prod.case)
    with None show ?thesis by (auto intro: extends_refl)
  next
    case (Some out)
    note so = this
    show ?thesis
    proof (cases "err_stderr e")
      case None
      have "execFileSyncAndLog h file args cwd s = (Inl (h_typeError h ''replace''), s2)"
        by (simp only: execFileSyncAndLog_unfold tryCatch_def andThen_def n None so
            evaluated_def indent_def option.case sum.case prod.case)
      with None show ?thesis by (auto intro: extends_refl)
    next
      case (Some err)
      obtain s3 where l: "writeLine h (''    Failed. stdout:''
          @ (h_newLine h @ ''    '' @ replaceFirstNewline out (h_newLine h @ ''    ''))
          @ h_newLine h @ ''    stderr:''
          @ (h_newLine h @ ''    '' @ replaceFirstNewline err (h_newLine h @ ''    ''))) s2 = (Inr (), s3)"
        and e3: "extends s2 [] [] s3"
        using loggingD [OF logging_writeLine] by blast
      have "execFileSyncAndLog h file args cwd s = (Inr True, s3)"
        by (simp only: execFileSyncAndLog_unfold tryCatch_def andThen_def n Some so
            evaluated_def indent_def option.case sum.case prod.case l result_def)
      with Some so e3 show ?thesis by auto
    qed
  qed
  then obtain s3 where e3: "extends s2 [] [] s3"
    and r: "execFileSyncAndLog h file args cwd s =
           (if err_stdout e = None \<or> err_stderr e = None then Inl (h_typeError h ''replace'')
            else Inr True, s3)" by blast
  show "fst (execFileSyncAndLog h file args cwd s) =
           (if err_stdout e = None \<or> err_stderr e = None then Inl (h_typeError h ''replace'')
            else Inr True)" by (simp only: r fst_conv)
  show "extends s [] [(file, args, cwd)] (snd (execFileSyncAndLog h file args cwd s))"
    using extends_trans1 [OF e02 e3] by (simp only: r snd_conv)
qed

lemma execFileSyncAndLog_extends:
  "extends s [] [(file, args, cwd)] (snd (execFileSyncAndLog h file args cwd s))"
proof (cases "h_execFileSync h file args cwd (world (launchState h file args s))")
  case (Pair r w)
  then show ?thesis
    by (cases r) (auto intro: execFileSyncAndLog_returned(2) execFileSyncAndLog_threw(2))
qed

lemma execFileSyncAndLog_result:
  "fst (execFileSyncAndLog h file args cwd s) =
     (case fst (h_execFileSync h file args cwd (world (launchState h file args s))) of
        Inr out \<Rightarrow> Inr False
      | Inl e \<Rightarrow>
          if err_stdout e = None \<or> err_stderr e = None then Inl (h_typeError h ''replace'')
          else Inr True)"
proof (cases "h_execFileSync h file args cwd (world (launchState h file args s))")
  case (Pair r w)
  show ?thesis
  proof (cases r)
    case (Inl e)
    with Pair execFileSyncAndLog_threw(1) [of h "file" args cwd s e w] show ?thesis by simp
  next
    case (Inr out)
    with Pair execFileSyncAndLog_returned(1) [of h "file" args cwd s out w] show ?thesis by simp
  qed
qed

lemma execFileSyncAndLog_returns:
  assumes "\<forall>file args cwd w e. fst (h_execFileSync h file args cwd w) = Inl e \<longrightarrow>
             err_stdout e \<noteq> None \<and> err_stderr e \<noteq> None"
  shows "\<exists>b. fst (execFileSyncAndLog h f a c s) = Inr b"
proof (cases "fst (h_execFileSync h f a c (world (launchState h f a s)))")
  case (Inr out)
  then have "fst (execFileSyncAndLog h f a c s) = Inr False" by (simp add: execFileSyncAndLog_result)
  then show ?thesis by blast
next
  case (Inl e)
  with assms have "err_stdout e \<noteq> None \<and> err_stderr e \<noteq> None" by blast
  with Inl have "fst (execFileSyncAndLog h f a c s) = Inr True" by (simp add: execFileSyncAndLog_result)
  then show ?thesis by blast
qed

lemma execFileSyncAndLog_succeeded_line:
  assumes "h_execFileSync h file args cwd (world (launchState h file args s)) = (Inr out, w)"
  shows "execFileSyncAndLog h file args cwd s =
     (Inr False,
      snd (writeLine h
             (''    Succeeded. stdout:'' @ h_newLine h @ ''    ''
                @ replaceFirstNewline out (h_newLine h @ ''    ''))
             ((launchState h file args s)
                \<lparr>world := w,
                 execCalls := execCalls (launchState h file args s) @ [(file, args, cwd)]\<rparr>)))"
proof -
  let ?s1 = "launchState h file args s"
  let ?s2 = "?s1\<lparr>world := w, execCalls := execCalls ?s1 @ [(file, args, cwd)]\<rparr>"
  let ?line = "''    Succeeded. stdout:'' @ h_newLine h @ ''    ''
                @ replaceFirstNewline out (h_newLine h @ ''    '')"
  have n: "nodeExecFileSync h file args cwd ?s1 = (Inr out, ?s2)"
    using assms by (simp add: nodeExecFileSync_def)
  have eq: "ifEnabled (andThen (evaluated (indent h (h_newLine h) (Some out)))
                        (\<lambda>t. writeLine h (''    Succeeded. stdout:'' @ t))) = writeLine h ?line"
  proof
    fix x :: "'a installer"
    have "andThen (evaluated (indent h (h_newLine h) (Some out)))
                        (\<lambda>t. writeLine h (''    Succeeded. stdout:'' @ t)) = writeLine h ?line"
      by (rule ext) (simp only: andThen_indent_Some)
    then show "ifEnabled (andThen (evaluated (indent h (h_newLine h) (Some out)))
                        (\<lambda>t. writeLine h (''    Succeeded. stdout:'' @ t))) x = writeLine h ?line x"
      by (simp only: ifEnabled_writeLine)
  qed
  obtain s3 where l: "writeLine h ?line ?s2 = (Inr (), s3)"
    using loggingD [OF logging_writeLine] by blast
  show ?thesis
    by (simp only: execFileSyncAndLog_unfold tryCatch_def andThen_def n eq l result_def
        sum.case prod.case snd_conv)
qed

text \<open>
  C10. For a captured output whose first line feed stands after \<open>first\<close>, and a line
  terminator without a dollar sign (as \<^verbatim>\<open>sys.newLine\<close> is), \<^verbatim>\<open>indent\<close> puts the line
  terminator and four spaces in front of the text, replaces that first line break (with the
  carriage return before it, if any) by the line terminator and four spaces, and copies
  everything after it, \<open>rest\<close>, unchanged: the line breaks of \<open>rest\<close> get no indentation,
  however many there are. When a child process returns such an output, the line
  \<^verbatim>\<open>execFileSyncAndLog\<close> hands to \<^verbatim>\<open>writeLine\<close> ends with \<open>rest\<close> as it is.
\<close>

theorem indent_first_newline_only:
  "CHR 0x0A \<notin> set first \<Longrightarrow> CHR ''$'' \<notin> set (h_newLine h) \<Longrightarrow>
   indent h (h_newLine h) (Some (first @ CHR 0x0A # rest)) =
     Inr (h_newLine h @ ''    ''
          @ (if first \<noteq> [] \<and> last first = CHR 0x0D then butlast first else first)
          @ h_newLine h @ ''    '' @ rest) \<and>
   (h_execFileSync h file args cwd (world (launchState h file args s)) =
      (Inr (first @ CHR 0x0A # rest), w) \<longrightarrow>
    execFileSyncAndLog h file args cwd s =
     (Inr False,
      snd (writeLine h
             (''    Succeeded. stdout:'' @ h_newLine h @ ''    ''
                @ (if first \<noteq> [] \<and> last first = CHR 0x0D then butlast first else first)
                @ h_newLine h @ ''    '' @ rest)
             ((launchState h file args s)
                \<lparr>world := w,
                 execCalls := execCalls (launchState h file args s) @ [(file, args, cwd)]\<rparr>))))"
proof (intro conjI impI)
  assume nl: "CHR 0x0A \<notin> set first"
  show "indent h (h_newLine h) (Some (first @ CHR 0x0A # rest)) =
     Inr (h_newLine h @ ''    ''
          @ (if first \<noteq> [] \<and> last first = CHR 0x0D then butlast first else first)
          @ h_newLine h @ ''    '' @ rest)"
    using nl by (simp add: indent_def replaceFirstNewline_at_first_line_feed)
  assume x: "h_execFileSync h file args cwd (world (launchState h file args s)) =
      (Inr (first @ CHR 0x0A # rest), w)"
  have r: "replaceFirstNewline (first @ CHR 0x0A # rest) (h_newLine h @ ''    '') =
      (if first \<noteq> [] \<and> last first = CHR 0x0D then butlast first else first)
          @ (h_newLine h @ ''    '') @ rest"
    using nl by (rule replaceFirstNewline_at_first_line_feed)
  show "execFileSyncAndLog h file args cwd s =
     (Inr False,
      snd (writeLine h
             (''    Succeeded. stdout:'' @ h_newLine h @ ''    ''
                @ (if first \<noteq> [] \<and> last first = CHR 0x0D then butlast first else first)
                @ h_newLine h @ ''    '' @ rest)
             ((launchState h file args s)
                \<lparr>world := w,
                 execCalls := execCalls (launchState h file args s) @ [(file, args, cwd)]\<rparr>)))"
    unfolding execFileSyncAndLog_succeeded_line [OF x] r by (simp only: append_assoc)
qed

theorem indent_first_newline_only_witness:
  "CHR 0x0A \<notin> set ''added 1 package'' \<and> CHR ''$'' \<notin> set [CHR 0x0A] \<and>
   indent (sampleHost [] (Inr []) [] []) [CHR 0x0A]
       (Some (''added 1 package'' @ CHR 0x0A # ''audited 2'' @ CHR 0x0A # ''done'')) =
     Inr (CHR 0x0A # ''    added 1 package'' @ CHR 0x0A # ''    audited 2'' @ CHR 0x0A # ''done'') \<and>
   world (snd (execFileSyncAndLog
       (sampleHost [] (Inr (''added 1 package'' @ CHR 0x0A # ''audited 2'' @ CHR 0x0A # ''done'')) [] [])
       ''npm'' [''install''] ''/project'' (sampleInstaller (Some ''/tmp/ti.log'') None))) =
     [''[12:00:00.000] Exec: npm install'' @ [CHR 0x0A],
      ''[12:00:00.000]     Succeeded. stdout:'' @ CHR 0x0A # ''    added 1 package''
        @ CHR 0x0A # ''    audited 2'' @ CHR 0x0A # ''done'' @ [CHR 0x0A]]"
  using indent_first_newline_only
    [of "''added 1 package''"
        "sampleHost [] (Inr (''added 1 package'' @ CHR 0x0A # ''audited 2'' @ CHR 0x0A # ''done'')) [] []"
        "''audited 2'' @ CHR 0x0A # ''done''" "''npm''" "[''install'']" "''/project''"
        "sampleInstaller (Some ''/tmp/ti.log'') None"
        "[''[12:00:00.000] Exec: npm install'' @ [CHR 0x0A]]"]
  by (simp add: launchState_def indent_def action_defs sample_defs)

text \<open>
  C4. \<^verbatim>\<open>execFileSyncAndLog\<close> returns \<^verbatim>\<open>false\<close> when the child process returns
  (\<open>execFileSyncAndLog_returned\<close>) and \<^verbatim>\<open>true\<close> when it throws an error that carries
  \<^verbatim>\<open>stdout\<close> and \<^verbatim>\<open>stderr\<close> (\<open>execFileSyncAndLog_threw\<close>). When the thrown error carries no
  \<^verbatim>\<open>stdout\<close>, as the error of an executable that cannot be spawned does, it does not return
  \<^verbatim>\<open>true\<close>: the \<^verbatim>\<open>catch\<close> block calls \<^verbatim>\<open>indent\<close> on \<^verbatim>\<open>undefined\<close>, and the \<^verbatim>\<open>TypeError\<close> of
  \<^verbatim>\<open>str.replace\<close> is thrown to the caller. Below, the launch of \<^verbatim>\<open>npm\<close> fails with
  \<open>spawnError\<close>: the process is launched once and \<^verbatim>\<open>execFileSyncAndLog\<close> throws.
\<close>

theorem execFileSyncAndLog_throws_when_spawn_fails:
  "execFileSyncAndLog (sampleHost [] (Inl spawnError) [] []) ''npm''
       [''install'', ''--ignore-scripts'', ''lodash''] ''/project'' (sampleInstaller None None) =
     (Inl (JsError ''TypeError'' ''Cannot read property replace of undefined'' ''TypeError'' None None),
      (sampleInstaller None None)
        \<lparr>execCalls := [(''npm'', [''install'', ''--ignore-scripts'', ''lodash''], ''/project'')]\<rparr>)"
  by (simp add: execFileSyncAndLog_def action_defs sample_defs)

section \<open>installWorker\<close>

lemma installWorker_unfold:
  "installWorker h requestId packageNames cwd k s =
     andThen
       (execFileSyncAndLog h (npmPath s) (''install'' # ''--ignore-scripts'' # packageNames) cwd)
       (\<lambda>hasError.
          andThen
            (ifEnabled
               (\<lambda>s'. writeLine h
                  (''npm install #'' @ showInt requestId @ '' took: ''
                     @ showInt (h_dateNow h (world s')
                          - h_dateNow h (world (snd (ifEnabled
          (writeLine h
             (''#'' @ showInt requestId @ '' with arguments'' @ [CHR 0x27]
                @ h_stringifyNames h packageNames @ [CHR 0x27] @ ''.'')) s)))) @ '' ms'') s'))
            (\<lambda>u. k (\<not> hasError)))
       (snd (ifEnabled
          (writeLine h
             (''#'' @ showInt requestId @ '' with arguments'' @ [CHR 0x27]
                @ h_stringifyNames h packageNames @ [CHR 0x27] @ ''.'')) s))"
proof -
  let ?L = "ifEnabled
          (writeLine h
             (''#'' @ showInt requestId @ '' with arguments'' @ [CHR 0x27]
                @ h_stringifyNames h packageNames @ [CHR 0x27] @ ''.''))"
  obtain s0 where l: "?L s = (Inr (), s0)" and e: "extends s [] [] s0"
    using loggingD [OF logging_ifEnabled [OF logging_writeLine]] by blast
  from e have "npmPath s0 = npmPath s" by (simp add: extends_def)
  then show ?thesis
    by (simp only: installWorker_def installNpmPackages_def andThen_def l prod.case sum.case
        snd_conv)
qed

lemma installWorker_effect:
  "\<exists>s1. extends s [] [(npmPath s, ''install'' # ''--ignore-scripts'' # packageNames, cwd)] s1 \<and>
     ((\<exists>e. installWorker h requestId packageNames cwd k s = (Inl e, s1)) \<or>
      (\<exists>b s2. extends s1 [] [] s2 \<and> installWorker h requestId packageNames cwd k s = k b s2))"
proof -
  let ?L = "ifEnabled
          (writeLine h
             (''#'' @ showInt requestId @ '' with arguments'' @ [CHR 0x27]
                @ h_stringifyNames h packageNames @ [CHR 0x27] @ ''.''))"
  let ?args = "''install'' # ''--ignore-scripts'' # packageNames"
  define s0 where "s0 = snd (?L s)"
  have e0: "extends s [] [] s0"
    unfolding s0_def by (intro logging_snd logging_ifEnabled logging_writeLine)
  then have np: "npmPath s0 = npmPath s" by (simp add: extends_def)
  obtain r s1 where x: "execFileSyncAndLog h (npmPath s) ?args cwd s0 = (r, s1)"
    by (cases "execFileSyncAndLog h (npmPath s) ?args cwd s0")
  have e1: "extends s0 [] [(npmPath s, ?args, cwd)] s1"
    using execFileSyncAndLog_extends [of s0 "npmPath s" ?args cwd h] by (simp add: x)
  have e01: "extends s [] [(npmPath s, ?args, cwd)] s1"
    using extends_trans0 [OF e0 e1] .
  show ?thesis
  proof (cases r)
    case (Inl e)
    have "installWorker h requestId packageNames cwd k s = (Inl e, s1)"
      using x Inl by (simp only: installWorker_unfold andThen_def s0_def [symmetric] prod.case sum.case)
    with e01 show ?thesis by blast
  next
    case (Inr b)
    let ?L2 = "ifEnabled
               (\<lambda>s'. writeLine h
                  (''npm install #'' @ showInt requestId @ '' took: ''
                     @ showInt (h_dateNow h (world s') - h_dateNow h (world s0)) @ '' ms'') s')"
    have lg: "logging ?L2" by (intro logging_ifEnabled logging_writeLine_of_state)
    obtain s2 where l2: "?L2 s1 = (Inr (), s2)" and e2: "extends s1 [] [] s2"
      using loggingD [OF lg, of s1] by blast
    have "installWorker h requestId packageNames cwd k s = k (\<not> b) s2"
      using x Inr l2
      by (simp only: installWorker_unfold andThen_def s0_def [symmetric] prod.case sum.case)
    with e01 e2 show ?thesis by blast
  qed
qed

lemma installWorker_result:
  "installWorker h requestId packageNames cwd onRequestCompleted s =
     (case execFileSyncAndLog h (npmPath s) (''install'' # ''--ignore-scripts'' # packageNames) cwd
             (snd (ifEnabled
                     (writeLine h
                        (''#'' @ showInt requestId @ '' with arguments'' @ [CHR 0x27]
                           @ h_stringifyNames h packageNames @ [CHR 0x27] @ ''.'')) s)) of
        (Inl e, s1) \<Rightarrow> (Inl e, s1)
      | (Inr hasError, s1) \<Rightarrow>
          onRequestCompleted (\<not> hasError)
            (snd (ifEnabled
                    (\<lambda>s'. writeLine h
                       (''npm install #'' @ showInt requestId @ '' took: ''
                          @ showInt (h_dateNow h (world s')
                               - h_dateNow h (world (snd (ifEnabled
                     (writeLine h
                        (''#'' @ showInt requestId @ '' with arguments'' @ [CHR 0x27]
                           @ h_stringifyNames h packageNames @ [CHR 0x27] @ ''.'')) s))))
                          @ '' ms'') s') s1)))"
proof -
  let ?s0 = "snd (ifEnabled
                     (writeLine h
                        (''#'' @ showInt requestId @ '' with arguments'' @ [CHR 0x27]
                           @ h_stringifyNames h packageNames @ [CHR 0x27] @ ''.'')) s)"
  let ?L2 = "ifEnabled
                    (\<lambda>s'. writeLine h
                       (''npm install #'' @ showInt requestId @ '' took: ''
                          @ showInt (h_dateNow h (world s') - h_dateNow h (world ?s0))
                          @ '' ms'') s')"
  have lg: "logging ?L2" by (intro logging_ifEnabled logging_writeLine_of_state)
  obtain r s1 where x: "execFileSyncAndLog h (npmPath s)
      (''install'' # ''--ignore-scripts'' # packageNames) cwd ?s0 = (r, s1)"
    by (cases "execFileSyncAndLog h (npmPath s)
      (''install'' # ''--ignore-scripts'' # packageNames) cwd ?s0")
  obtain s2 where l2: "?L2 s1 = (Inr (), s2)" using loggingD [OF lg, of s1] by blast
  show ?thesis
    by (cases r) (simp_all only: installWorker_unfold andThen_def x l2 prod.case sum.case snd_conv)
qed

lemma installWorker_returns:
  assumes "\<forall>file args cwd w e. fst (h_execFileSync h file args cwd w) = Inl e \<longrightarrow>
             err_stdout e \<noteq> None \<and> err_stderr e \<noteq> None"
  shows "\<exists>b s2. extends s [] [(npmPath s, ''install'' # ''--ignore-scripts'' # packageNames, cwd)] s2 \<and>
           installWorker h requestId packageNames cwd k s = k b s2"
proof -
  let ?L = "ifEnabled
                     (writeLine h
                        (''#'' @ showInt requestId @ '' with arguments'' @ [CHR 0x27]
                           @ h_stringifyNames h packageNames @ [CHR 0x27] @ ''.''))"
  let ?args = "''install'' # ''--ignore-scripts'' # packageNames"
  define s0 where "s0 = snd (?L s)"
  have e0: "extends s [] [] s0"
    unfolding s0_def by (intro logging_snd logging_ifEnabled logging_writeLine)
  obtain b where b: "fst (execFileSyncAndLog h (npmPath s) ?args cwd s0) = Inr b"
    using execFileSyncAndLog_returns [OF assms] by blast
  obtain t where x: "execFileSyncAndLog h (npmPath s) ?args cwd s0 = (Inr b, t)"
    using b by (cases "execFileSyncAndLog h (npmPath s) ?args cwd s0") simp
  have e1: "extends s0 [] [(npmPath s, ?args, cwd)] t"
    using execFileSyncAndLog_extends [of s0 "npmPath s" ?args cwd h] by (simp only: x snd_conv)
  let ?L2 = "ifEnabled
                    (\<lambda>s'. writeLine h
                       (''npm install #'' @ showInt requestId @ '' took: ''
                          @ showInt (h_dateNow h (world s') - h_dateNow h (world s0))
                          @ '' ms'') s')"
  have lg: "logging ?L2" by (intro logging_ifEnabled logging_writeLine_of_state)
  have e2: "extends t [] [] (snd (?L2 t))" using lg by (rule logging_snd)
  have "installWorker h requestId packageNames cwd k s = k (\<not> b) (snd (?L2 t))"
    by (simp only: installWorker_result s0_def [symmetric] x prod.case sum.case)
  moreover have "extends s [] [(npmPath s, ?args, cwd)] (snd (?L2 t))"
    using extends_trans0 [OF e0 extends_trans1 [OF e1 e2]] .
  ultimately show ?thesis by blast
qed

text \<open>
  C5. \<^verbatim>\<open>installWorker\<close> runs the install command once, with all the package names, in
  \<^verbatim>\<open>cwd\<close>, and when \<^verbatim>\<open>execFileSyncAndLog\<close> returns \<open>hasError\<close> it calls \<^verbatim>\<open>onRequestCompleted\<close>
  once, with \<open>\<not> hasError\<close> (\<open>installWorker_result\<close>). When \<^verbatim>\<open>execFileSyncAndLog\<close> throws, as
  in C4, the worker throws too and \<^verbatim>\<open>onRequestCompleted\<close> is not called. Below, the launch
  of \<^verbatim>\<open>npm\<close> fails with \<open>spawnError\<close> and the callback would send a response: the command
  is launched once, the worker throws, and nothing is sent.
\<close>

theorem installWorker_skips_callback_when_spawn_fails:
  "installWorker (sampleHost [] (Inl spawnError) [] []) (- 1) [''lodash''] ''/project''
       (\<lambda>success. sendResponse (sampleHost [] (Inl spawnError) [] [])
           (PackageInstalled ''proj'' success (installPackageMessage success ''lodash'')))
       (sampleInstaller None None) =
     (Inl (JsError ''TypeError'' ''Cannot read property replace of undefined'' ''TypeError'' None None),
      (sampleInstaller None None)
        \<lparr>execCalls := [(''npm'', [''install'', ''--ignore-scripts'', ''lodash''], ''/project'')]\<rparr>)"
  by (simp add: installWorker_def installNpmPackages_def execFileSyncAndLog_def action_defs sample_defs)

section \<open>The project root resolver\<close>

lemma forEachAncestorDirectory_find:
  "forEachAncestorDirectory d (\<lambda>x. if P x then Some x else None) = find P (ancestorDirectories d)"
proof (induction d rule: ancestorDirectories.induct)
  case (1 d)
  show ?case
  proof (cases "P d")
    case True
    then show ?thesis
      by (subst forEachAncestorDirectory.simps, subst ancestorDirectories.simps) simp
  next
    case False
    show ?thesis
    proof (cases "getDirectoryPath d = d")
      case True
      with False show ?thesis
        by (subst forEachAncestorDirectory.simps, subst ancestorDirectories.simps) simp
    next
      case stop: False
      with False "1.IH" show ?thesis
        by (subst forEachAncestorDirectory.simps, subst ancestorDirectories.simps) simp
    qed
  qed
qed

lemma getDirectoryOfPackageJson_find:
  "getDirectoryOfPackageJson h fileName w =
     find (\<lambda>d. h_fileExists h (combinePaths d ''package.json'') w)
       (ancestorDirectories (getDirectoryPath fileName))"
  by (simp only: getDirectoryOfPackageJson_def forEachAncestorDirectory_find)

lemma ancestorDirectories_first: "hd (ancestorDirectories d) = d"
  by (subst ancestorDirectories.simps) simp

lemma ancestorDirectories_last:
  "getDirectoryPath (last (ancestorDirectories d)) = last (ancestorDirectories d)"
proof (induction d rule: ancestorDirectories.induct)
  case (1 d)
  show ?case
  proof (cases "getDirectoryPath d = d")
    case True
    then show ?thesis by (subst (1 2) ancestorDirectories.simps) simp
  next
    case False
    moreover have "ancestorDirectories (getDirectoryPath d) \<noteq> []"
      by (subst ancestorDirectories.simps) simp
    ultimately show ?thesis using "1.IH" by (subst (1 2) ancestorDirectories.simps) simp
  qed
qed

lemma ancestorDirectories_example:
  "ancestorDirectories ''/a/b/c'' = [''/a/b/c'', ''/a/b'', ''/a'', ''/'']"
  by (simp add: ancestorDirectories.simps getDirectoryPath_def getRootLength_def
      removeTrailingDirectorySeparator_def lastIndexOfSeparator_def)

lemma getDirectoryPath_example: "getDirectoryPath ''/a/b/c/file.ts'' = ''/a/b/c''"
  by (simp add: getDirectoryPath_def getRootLength_def
      removeTrailingDirectorySeparator_def lastIndexOfSeparator_def)

text \<open>
  C7. \<^verbatim>\<open>getDirectoryOfPackageJson\<close> returns the first directory that holds a
  \<^verbatim>\<open>package.json\<close> in the chain that starts at the directory containing the file and goes
  from each directory to its parent up to the root (\<open>ancestorDirectories\<close>), and
  \<^verbatim>\<open>undefined\<close> when no directory of the chain holds one.
\<close>

theorem getDirectoryOfPackageJson_nearest_manifest:
  "getDirectoryOfPackageJson h fileName w =
     find (\<lambda>d. h_fileExists h (combinePaths d ''package.json'') w)
       (ancestorDirectories (getDirectoryPath fileName))"
  by (simp only: getDirectoryOfPackageJson_def forEachAncestorDirectory_find)

theorem getDirectoryOfPackageJson_nearest_manifest_witness:
  "getDirectoryOfPackageJson (sampleHost [(''/a/b/package.json'', ''{}'')] (Inr []) [] [])
       ''/a/b/c/file.ts'' [] = Some ''/a/b'' \<and>
   getDirectoryOfPackageJson (sampleHost [(''/a/b/package.json'', ''{}''), (''/a/package.json'', ''{}'')] (Inr []) [] [])
       ''/a/b/c/file.ts'' [] = Some ''/a/b'' \<and>
   getDirectoryOfPackageJson (sampleHost [] (Inr []) [] []) ''/a/b/c/file.ts'' [] = None"
  by (simp add: getDirectoryOfPackageJson_nearest_manifest getDirectoryPath_example ancestorDirectories_example
      sampleHost_def combinePaths_def)

section \<open>The registry loader\<close>

lemma loadTypesRegistryFile_missing:
  assumes "\<not> h_fileExists h path (world s)"
  shows "loadTypesRegistryFile h path s =
     (Inr [], snd (ifEnabled
                (writeLine h
                   (''Types registry file '' @ [CHR 0x27] @ path @ [CHR 0x27]
                      @ '' does not exist'')) s))"
proof -
  obtain s1 where l: "ifEnabled
                (writeLine h
                   (''Types registry file '' @ [CHR 0x27] @ path @ [CHR 0x27]
                      @ '' does not exist'')) s = (Inr (), s1)"
    using loggingD [OF logging_ifEnabled [OF logging_writeLine]] by blast
  show ?thesis using assms
    by (simp only: loadTypesRegistryFile_def if_True andThen_def l prod.case sum.case result_def
        snd_conv simp_thms)
qed

lemma loadTypesRegistryFile_parsed:
  assumes "h_fileExists h path (world s)"
    and "h_jsonParse h (case h_readFile h path (world s) of None \<Rightarrow> ''undefined'' | Some c \<Rightarrow> c)
           = Inr content"
  shows "loadTypesRegistryFile h path s =
     (case entriesOf h content of
        Inr entries \<Rightarrow> (Inr (createMapFromTemplate entries), s)
      | Inl e \<Rightarrow>
          (Inr [], snd (ifEnabled
                   (writeLine h
                      (''Error when loading types registry file '' @ [CHR 0x27]
                         @ path @ [CHR 0x27] @ '': '' @ err_message e @ '', ''
                         @ err_stack e)) s)))"
proof (cases "entriesOf h content")
  case (Inr entries)
  with assms show ?thesis
    by (simp only: loadTypesRegistryFile_def tryCatch_def andThen_def evaluated_def result_def
        prod.case sum.case simp_thms if_False)
next
  case (Inl e)
  obtain s1 where l: "ifEnabled
                   (writeLine h
                      (''Error when loading types registry file '' @ [CHR 0x27]
                         @ path @ [CHR 0x27] @ '': '' @ err_message e @ '', ''
                         @ err_stack e)) s = (Inr (), s1)"
    using loggingD [OF logging_ifEnabled [OF logging_writeLine]] by blast
  from assms Inl show ?thesis
    by (simp only: loadTypesRegistryFile_def tryCatch_def andThen_def evaluated_def result_def
        prod.case sum.case simp_thms if_False l snd_conv)
qed

lemma loadTypesRegistryFile_malformed:
  assumes "h_fileExists h path (world s)"
    and "h_jsonParse h (case h_readFile h path (world s) of None \<Rightarrow> ''undefined'' | Some c \<Rightarrow> c)
           = Inl e"
  shows "loadTypesRegistryFile h path s =
          (Inr [], snd (ifEnabled
                   (writeLine h
                      (''Error when loading types registry file '' @ [CHR 0x27]
                         @ path @ [CHR 0x27] @ '': '' @ err_message e @ '', ''
                         @ err_stack e)) s))"
proof -
  obtain s1 where l: "ifEnabled
                   (writeLine h
                      (''Error when loading types registry file '' @ [CHR 0x27]
                         @ path @ [CHR 0x27] @ '': '' @ err_message e @ '', ''
                         @ err_stack e)) s = (Inr (), s1)"
    using loggingD [OF logging_ifEnabled [OF logging_writeLine]] by blast
  from assms show ?thesis
    by (simp only: loadTypesRegistryFile_def tryCatch_def andThen_def evaluated_def result_def
        prod.case sum.case simp_thms if_False l snd_conv)
qed

lemma loadTypesRegistryFile_effect:
  "\<exists>registry. fst (loadTypesRegistryFile h path s) = Inr registry \<and>
     extends s [] [] (snd (loadTypesRegistryFile h path s))"
proof (cases "h_fileExists h path (world s)")
  case False
  show ?thesis
    unfolding loadTypesRegistryFile_missing [OF False]
    by (simp only: fst_conv snd_conv) (blast intro: logging_snd logging_ifEnabled logging_writeLine)
next
  case True
  show ?thesis
  proof (cases "h_jsonParse h (case h_readFile h path (world s) of None \<Rightarrow> ''undefined'' | Some c \<Rightarrow> c)")
    case (Inl e)
    show ?thesis
      unfolding loadTypesRegistryFile_malformed [OF True Inl]
      by (simp only: fst_conv snd_conv) (blast intro: logging_snd logging_ifEnabled logging_writeLine)
  next
    case (Inr content)
    show ?thesis
    proof (cases "entriesOf h content")
      case (Inl e)
      show ?thesis
        unfolding loadTypesRegistryFile_parsed [OF True Inr] Inl
        by (simp only: fst_conv snd_conv sum.case)
           (blast intro: logging_snd logging_ifEnabled logging_writeLine)
    next
      case (Inr entries)
      show ?thesis
        unfolding loadTypesRegistryFile_parsed [OF True \<open>h_jsonParse h _ = Inr content\<close>] Inr
        by (simp add: extends_refl)
    qed
  qed
qed

text \<open>
  C6, amended. \<^verbatim>\<open>loadTypesRegistryFile\<close> never throws, and it logs exactly what is thrown
  inside its \<^verbatim>\<open>try\<close> block.

  \<^item> When the file does not exist it returns the empty mapping, and the state is the one
    \<^verbatim>\<open>writeLine\<close> leaves for the line that says so.
  \<^item> When \<^verbatim>\<open>JSON.parse\<close> throws on the text of the file, it returns the empty mapping, and
    the state is the one \<^verbatim>\<open>writeLine\<close> leaves for the line that holds the message and the
    stack of the error.
  \<^item> When the text parses to \<^verbatim>\<open>null\<close>, the read of \<^verbatim>\<open>entries\<close> throws a \<^verbatim>\<open>TypeError\<close>: it
    returns the empty mapping, and the state is the one \<^verbatim>\<open>writeLine\<close> leaves for the line
    that holds the message and the stack of that error.
  \<^item> When the text parses to an object whose \<^verbatim>\<open>entries\<close> property is an object, it returns
    the properties of \<^verbatim>\<open>entries\<close>, each package name with its property bag, and changes
    nothing.
  \<^item> When the text parses to a value other than \<^verbatim>\<open>null\<close> on which the read of \<^verbatim>\<open>entries\<close>
    gives nothing to copy (an object without the property, a number, a string, a boolean,
    an array), nothing is thrown: it returns the empty mapping and changes nothing, so no
    line is written to the log.

  An \<^verbatim>\<open>entries\<close> property that is not an object is left out of the statement.

  (\<^verbatim>\<open>writeLine\<close> does nothing when the log is disabled.)
\<close>

theorem loadTypesRegistryFile_logs_only_what_is_thrown:
  "(\<exists>registry. fst (loadTypesRegistryFile h path s) = Inr registry) \<and>
   (\<not> h_fileExists h path (world s) \<longrightarrow>
      loadTypesRegistryFile h path s =
        (Inr [], snd (writeLine h
                        (''Types registry file '' @ [CHR 0x27] @ path @ [CHR 0x27]
                           @ '' does not exist'') s))) \<and>
   (h_fileExists h path (world s) \<and>
    h_jsonParse h (registryFileText h path (world s)) = Inl e \<longrightarrow>
      loadTypesRegistryFile h path s =
        (Inr [], snd (writeLine h
                        (''Error when loading types registry file '' @ [CHR 0x27]
                           @ path @ [CHR 0x27] @ '': '' @ err_message e @ '', ''
                           @ err_stack e) s))) \<and>
   (h_fileExists h path (world s) \<and>
    h_jsonParse h (registryFileText h path (world s)) = Inr JNull \<longrightarrow>
      loadTypesRegistryFile h path s =
        (Inr [], snd (writeLine h
                        (''Error when loading types registry file '' @ [CHR 0x27]
                           @ path @ [CHR 0x27] @ '': '' @ err_message (h_typeError h ''entries'')
                           @ '', '' @ err_stack (h_typeError h ''entries'')) s))) \<and>
   (h_fileExists h path (world s) \<and>
    h_jsonParse h (registryFileText h path (world s)) = Inr (JObject props) \<and>
    map_of props ''entries'' = Some (JObject entries) \<longrightarrow>
      loadTypesRegistryFile h path s = (Inr entries, s)) \<and>
   (h_fileExists h path (world s) \<and>
    h_jsonParse h (registryFileText h path (world s)) = Inr v \<and> entriesOf h v = Inr None \<longrightarrow>
      loadTypesRegistryFile h path s = (Inr [], s))"
proof (intro conjI impI)
  show "\<exists>registry. fst (loadTypesRegistryFile h path s) = Inr registry"
    using loadTypesRegistryFile_effect [of h path s] by blast
next
  assume "\<not> h_fileExists h path (world s)"
  from loadTypesRegistryFile_missing [OF this]
  show "loadTypesRegistryFile h path s =
        (Inr [], snd (writeLine h
                        (''Types registry file '' @ [CHR 0x27] @ path @ [CHR 0x27]
                           @ '' does not exist'') s))"
    by (simp only: ifEnabled_writeLine)
next
  assume a: "h_fileExists h path (world s) \<and>
    h_jsonParse h (registryFileText h path (world s)) = Inl e"
  from loadTypesRegistryFile_malformed [OF conjunct1 [OF a] conjunct2 [OF a, unfolded registryFileText_def]]
  show "loadTypesRegistryFile h path s =
        (Inr [], snd (writeLine h
                        (''Error when loading types registry file '' @ [CHR 0x27]
                           @ path @ [CHR 0x27] @ '': '' @ err_message e @ '', ''
                           @ err_stack e) s))"
    by (simp only: ifEnabled_writeLine)
next
  assume a: "h_fileExists h path (world s) \<and>
    h_jsonParse h (registryFileText h path (world s)) = Inr JNull"
  from loadTypesRegistryFile_parsed [OF conjunct1 [OF a] conjunct2 [OF a, unfolded registryFileText_def]]
  show "loadTypesRegistryFile h path s =
        (Inr [], snd (writeLine h
                        (''Error when loading types registry file '' @ [CHR 0x27]
                           @ path @ [CHR 0x27] @ '': '' @ err_message (h_typeError h ''entries'')
                           @ '', '' @ err_stack (h_typeError h ''entries'')) s))"
    by (simp only: entriesOf.simps sum.case ifEnabled_writeLine)
next
  assume a: "h_fileExists h path (world s) \<and>
    h_jsonParse h (registryFileText h path (world s)) = Inr (JObject props) \<and>
    map_of props ''entries'' = Some (JObject entries)"
  from loadTypesRegistryFile_parsed
    [OF conjunct1 [OF a] conjunct1 [OF conjunct2 [OF a], unfolded registryFileText_def]]
    conjunct2 [OF conjunct2 [OF a]]
  show "loadTypesRegistryFile h path s = (Inr entries, s)"
    by (simp only: entriesOf.simps sum.case createMapFromTemplate.simps)
next
  assume a: "h_fileExists h path (world s) \<and>
    h_jsonParse h (registryFileText h path (world s)) = Inr v \<and> entriesOf h v = Inr None"
  from loadTypesRegistryFile_parsed
    [OF conjunct1 [OF a] conjunct1 [OF conjunct2 [OF a], unfolded registryFileText_def]]
    conjunct2 [OF conjunct2 [OF a]]
  show "loadTypesRegistryFile h path s = (Inr [], s)"
    by (simp only: sum.case createMapFromTemplate.simps)
qed

theorem loadTypesRegistryFile_logs_only_what_is_thrown_witness:
  "loadTypesRegistryFile (sampleHost [] (Inr ''ok'') [] [])
      ''/cache/index.json'' (sampleInstaller (Some ''/tmp/ti.log'') None) =
     (Inr [], (sampleInstaller (Some ''/tmp/ti.log'') None)
        \<lparr>world := [''[12:00:00.000] Types registry file '' @ [CHR 0x27]
                      @ ''/cache/index.json'' @ [CHR 0x27] @ '' does not exist''
                      @ [CHR 0x0A]]\<rparr>) \<and>
   loadTypesRegistryFile (sampleHost [(''/cache/index.json'', ''{'')] (Inr ''ok'') [] [])
      ''/cache/index.json'' (sampleInstaller (Some ''/tmp/ti.log'') None) =
     (Inr [], (sampleInstaller (Some ''/tmp/ti.log'') None)
        \<lparr>world := [''[12:00:00.000] Error when loading types registry file ''
                      @ [CHR 0x27] @ ''/cache/index.json'' @ [CHR 0x27]
                      @ '': Unexpected token, SyntaxError: Unexpected token'' @ [CHR 0x0A]]\<rparr>) \<and>
   loadTypesRegistryFile (sampleHost [(''/cache/index.json'', ''null'')] (Inr ''ok'') [] [])
      ''/cache/index.json'' (sampleInstaller (Some ''/tmp/ti.log'') None) =
     (Inr [], (sampleInstaller (Some ''/tmp/ti.log'') None)
        \<lparr>world := [''[12:00:00.000] Error when loading types registry file ''
                      @ [CHR 0x27] @ ''/cache/index.json'' @ [CHR 0x27]
                      @ '': Cannot read property entries of undefined, TypeError''
                      @ [CHR 0x0A]]\<rparr>) \<and>
   loadTypesRegistryFile (sampleHost [(''/cache/index.json'', sampleRegistryText)] (Inr ''ok'') [] [])
      ''/cache/index.json'' (sampleInstaller (Some ''/tmp/ti.log'') None) =
     (Inr [(''lodash'', JObject [(''latest'', JString ''4.0'')])],
      sampleInstaller (Some ''/tmp/ti.log'') None) \<and>
   loadTypesRegistryFile (sampleHost [(''/cache/index.json'', ''5'')] (Inr ''ok'') [] [])
      ''/cache/index.json'' (sampleInstaller (Some ''/tmp/ti.log'') None) =
     (Inr [], sampleInstaller (Some ''/tmp/ti.log'') None)"
  using loadTypesRegistryFile_logs_only_what_is_thrown
    [of "sampleHost [] (Inr ''ok'') [] []" "''/cache/index.json''"
        "sampleInstaller (Some ''/tmp/ti.log'') None"]
    loadTypesRegistryFile_logs_only_what_is_thrown
    [of "sampleHost [(''/cache/index.json'', ''{'')] (Inr ''ok'') [] []"
        "''/cache/index.json''" "sampleInstaller (Some ''/tmp/ti.log'') None"
        "JsError ''SyntaxError'' ''Unexpected token'' ''SyntaxError: Unexpected token'' None None"]
    loadTypesRegistryFile_logs_only_what_is_thrown
    [of "sampleHost [(''/cache/index.json'', ''null'')] (Inr ''ok'') [] []"
        "''/cache/index.json''" "sampleInstaller (Some ''/tmp/ti.log'') None"]
    loadTypesRegistryFile_logs_only_what_is_thrown
    [of "sampleHost [(''/cache/index.json'', sampleRegistryText)] (Inr ''ok'') [] []"
        "''/cache/index.json''" "sampleInstaller (Some ''/tmp/ti.log'') None" _
        "[(''entries'', JObject [(''lodash'', JObject [(''latest'', JString ''4.0'')])])]"
        "[(''lodash'', JObject [(''latest'', JString ''4.0'')])]"]
    loadTypesRegistryFile_logs_only_what_is_thrown
    [of "sampleHost [(''/cache/index.json'', ''5'')] (Inr ''ok'') [] []"
        "''/cache/index.json''" "sampleInstaller (Some ''/tmp/ti.log'') None" _ _ _
        "JNumber 5"]
  by (simp add: registryFileText_def action_defs sample_defs sampleJsonParse_def
      sampleRegistryText_def)

text \<open>
  The claim as the specification states it fails on a file that parses and has the wrong
  shape. With the log enabled and writable, a registry file that holds \<^verbatim>\<open>{}\<close> gives the empty
  mapping and leaves the state as it was: the log has no line, where the file that holds
  \<^verbatim>\<open>{\<close> gives it the line of the error.
\<close>

theorem loadTypesRegistryFile_wrong_shape_not_logged:
  "isEnabled (sampleInstaller (Some ''/tmp/ti.log'') None) \<and>
   sampleJsonParse ''{}'' = Inr (JObject []) \<and>
   loadTypesRegistryFile (sampleHost [(''/cache/index.json'', ''{}'')] (Inr ''ok'') [] [])
      ''/cache/index.json'' (sampleInstaller (Some ''/tmp/ti.log'') None) =
     (Inr [], sampleInstaller (Some ''/tmp/ti.log'') None) \<and>
   world (snd (loadTypesRegistryFile
                 (sampleHost [(''/cache/index.json'', ''{}'')] (Inr ''ok'') [] [])
                 ''/cache/index.json'' (sampleInstaller (Some ''/tmp/ti.log'') None))) = [] \<and>
   world (snd (loadTypesRegistryFile
                 (sampleHost [(''/cache/index.json'', ''{'')] (Inr ''ok'') [] [])
                 ''/cache/index.json'' (sampleInstaller (Some ''/tmp/ti.log'') None))) =
     [''[12:00:00.000] Error when loading types registry file ''
        @ [CHR 0x27] @ ''/cache/index.json'' @ [CHR 0x27]
        @ '': Unexpected token, SyntaxError: Unexpected token'' @ [CHR 0x0A]]"
  by (simp add: loadTypesRegistryFile_def action_defs sample_defs sampleJsonParse_def
      sampleRegistryText_def)

section \<open>The constructor\<close>

lemma stringContains_space: "stringContains p '' '' = (CHR '' '' \<in> set p)"
  by (induction p) auto

lemma logging_logNpmLocation: "logging (logNpmLocation h npmLocation)"
  unfolding logNpmLocation_def
  by (intro logging_ifEnabled logging_andThen logging_writeLine logging_writeLine_of_state)

lemma updateTypesRegistryPackage_effect:
  "\<exists>s'. updateTypesRegistryPackage h g s = (Inr (), s') \<and>
     outbound s' = outbound s \<and>
     execCalls s' = execCalls s @ [(npmPath s, [''install'', ''--ignore-scripts'',
                 typesRegistryPackageName @ ''@'' @ h_latestDistTag h], g)] \<and>
     npmPath s' = npmPath s \<and> typesRegistry s' = typesRegistry s \<and>
     (logFile s' = None \<or> logFile s' = logFile s) \<and>
     (delayedInitializationError s' = delayedInitializationError s \<or>
      (\<exists>m. delayedInitializationError s' = Some m))"
proof -
  let ?args = "[''install'', ''--ignore-scripts'', typesRegistryPackageName @ ''@'' @ h_latestDistTag h]"
  let ?L = "ifEnabled (writeLine h (''Updating '' @ typesRegistryPackageName @ '' npm package...''))"
  let ?L2 = "ifEnabled (writeLine h (''Updated '' @ typesRegistryPackageName @ '' npm package''))"
  obtain s1 where l: "?L s = (Inr (), s1)" and e1: "extends s [] [] s1"
    using loggingD [OF logging_ifEnabled [OF logging_writeLine]] by blast
  then have np: "npmPath s1 = npmPath s" by (simp add: extends_def)
  obtain r s2 where x: "execFileSyncAndLog h (npmPath s) ?args g s1 = (r, s2)"
    by (cases "execFileSyncAndLog h (npmPath s) ?args g s1")
  have e2: "extends s1 [] [(npmPath s, ?args, g)] s2"
    using execFileSyncAndLog_extends [of s1 "npmPath s" ?args g h] by (simp only: x snd_conv)
  have e02: "extends s [] [(npmPath s, ?args, g)] s2" using extends_trans0 [OF e1 e2] .
  show ?thesis
  proof (cases r)
    case (Inr failed)
    obtain s3 where l2: "?L2 s2 = (Inr (), s3)" and e3: "extends s2 [] [] s3"
      using loggingD [OF logging_ifEnabled [OF logging_writeLine]] by blast
    have "updateTypesRegistryPackage h g s = (Inr (), s3)"
      using x Inr
      by (simp only: updateTypesRegistryPackage_def tryCatch_def andThen_def l np l2
          prod.case sum.case)
    with extends_trans1 [OF e02 e3] show ?thesis by (auto simp: extends_def)
  next
    case (Inl e)
    let ?L3 = "ifEnabled (writeLine h (''Error updating '' @ typesRegistryPackageName @ '' package: ''
                   @ err_message e))"
    obtain s3 where l3: "?L3 s2 = (Inr (), s3)" and e3: "extends s2 [] [] s3"
      using loggingD [OF logging_ifEnabled [OF logging_writeLine]] by blast
    have "updateTypesRegistryPackage h g s =
            (Inr (), s3\<lparr>delayedInitializationError := Some (err_message e)\<rparr>)"
      using x Inl
      by (simp only: updateTypesRegistryPackage_def tryCatch_def andThen_def l np l3
          prod.case sum.case)
    with extends_trans1 [OF e02 e3] show ?thesis by (auto simp: extends_def)
  qed
qed

lemma newNodeTypingsInstaller_effect:
  "\<exists>s'. newNodeTypingsInstaller h g npmLocation log w = (Inr (), s') \<and>
     outbound s' = [] \<and>
     execCalls s' = [(quotedNpmPath (resolvedNpmPath h npmLocation),
                      [''install'', ''--ignore-scripts'',
                       typesRegistryPackageName @ ''@'' @ h_latestDistTag h], g)] \<and>
     npmPath s' = quotedNpmPath (resolvedNpmPath h npmLocation)"
proof -
  let ?s0 = "\<lparr>logFile = log, npmPath = quotedNpmPath (resolvedNpmPath h npmLocation),
        typesRegistry = [], delayedInitializationError = None, outbound = [], execCalls = [],
        world = w\<rparr>"
  obtain s1 where a: "logNpmLocation h npmLocation ?s0 = (Inr (), s1)" and e1: "extends ?s0 [] [] s1"
    using loggingD [OF logging_logNpmLocation] by blast
  let ?s2 = "s1\<lparr>world := h_ensurePackageDirectoryExists h g (world s1)\<rparr>"
  obtain s3 where c: "updateTypesRegistryPackage h g ?s2 = (Inr (), s3)"
    and o3: "outbound s3 = outbound ?s2"
    and x3: "execCalls s3 = execCalls ?s2 @ [(npmPath ?s2, [''install'', ''--ignore-scripts'',
                 typesRegistryPackageName @ ''@'' @ h_latestDistTag h], g)]"
    and n3: "npmPath s3 = npmPath ?s2"
    using updateTypesRegistryPackage_effect [of h g ?s2] by blast
  obtain registry s4 where d: "loadTypesRegistryFile h (getTypesRegistryFileLocation g) s3 = (Inr registry, s4)"
    and e4: "extends s3 [] [] s4"
    using loadTypesRegistryFile_effect [of h "getTypesRegistryFileLocation g" s3]
    by (cases "loadTypesRegistryFile h (getTypesRegistryFileLocation g) s3") auto
  have "newNodeTypingsInstaller h g npmLocation log w = (Inr (), s4\<lparr>typesRegistry := registry\<rparr>)"
    by (simp only: newNodeTypingsInstaller_def andThen_def a c d prod.case sum.case)
  with e1 o3 x3 n3 e4 show ?thesis by (auto simp: extends_def)
qed

text \<open>
  The failure the constructor stores is the error thrown out of \<^verbatim>\<open>execFileSyncAndLog\<close>:
  when \<^verbatim>\<open>npm\<close> cannot be spawned it is the \<^verbatim>\<open>TypeError\<close> of \<^verbatim>\<open>indent\<close>, and when the update
  runs nothing is stored.
\<close>

lemma newNodeTypingsInstaller_stores_failure:
  "delayedInitializationError
     (snd (newNodeTypingsInstaller (sampleHost [] (Inl spawnError) [] []) ''/cache'' None None [])) =
     Some ''Cannot read property replace of undefined'' \<and>
   delayedInitializationError
     (snd (newNodeTypingsInstaller (sampleHost [] (Inr ''ok'') [] []) ''/cache'' None None [])) = None"
  by (simp add: newNodeTypingsInstaller_def logNpmLocation_def updateTypesRegistryPackage_def
      loadTypesRegistryFile_def execFileSyncAndLog_def action_defs sample_defs)

section \<open>The listener\<close>

lemma reportInitializationFailed_effect:
  "\<exists>s1. extends s (pendingResponses s) [] s1 \<and>
     reportInitializationFailed h s = (Inr (), s1\<lparr>delayedInitializationError := None\<rparr>)"
proof (cases "delayedInitializationError s")
  case None
  then show ?thesis
    by (auto simp: reportInitializationFailed_def pendingResponses_def intro!: exI [of _ s] extends_refl)
next
  case (Some m)
  obtain s1 where r: "sendResponse h (InitializationFailed m) s = (Inr (), s1)"
    and e: "extends s [InitializationFailed m] [] s1"
    using sendResponse_effect [of h "InitializationFailed m" s]
    by (cases "sendResponse h (InitializationFailed m) s") auto
  have "reportInitializationFailed h s = (Inr (), s1\<lparr>delayedInitializationError := None\<rparr>)"
    by (simp add: reportInitializationFailed_def Some andThen_def r)
  with e Some show ?thesis by (auto simp: pendingResponses_def)
qed

lemma onMessage_unfold:
  "onMessage h req s = handleRequest h req (snd (reportInitializationFailed h s))"
proof -
  obtain s1 where "reportInitializationFailed h s = (Inr (), s1)"
    using reportInitializationFailed_effect [of s h] by blast
  then show ?thesis by (simp add: onMessage_def andThen_def)
qed

lemma reportInitializationFailed_state:
  "outbound (snd (reportInitializationFailed h s)) = outbound s @ pendingResponses s \<and>
   execCalls (snd (reportInitializationFailed h s)) = execCalls s \<and>
   delayedInitializationError (snd (reportInitializationFailed h s)) = None \<and>
   npmPath (snd (reportInitializationFailed h s)) = npmPath s \<and>
   typesRegistry (snd (reportInitializationFailed h s)) = typesRegistry s \<and>
   (logFile (snd (reportInitializationFailed h s)) = None \<or>
    logFile (snd (reportInitializationFailed h s)) = logFile s)"
proof -
  obtain s1 where "extends s (pendingResponses s) [] s1"
    and "reportInitializationFailed h s = (Inr (), s1\<lparr>delayedInitializationError := None\<rparr>)"
    using reportInitializationFailed_effect [of s h] by blast
  then show ?thesis by (auto simp: extends_def)
qed

lemma extends_from_world: "extends (s\<lparr>world := w\<rparr>) out calls s' \<Longrightarrow> extends s out calls s'"
  by (simp add: extends_def)

lemma handleRequest_Discover:
  "fst (handleRequest h (Discover d) s) = Inr () \<and>
   extends s (fst (h_install h d (world s))) [] (snd (handleRequest h (Discover d) s))"
proof -
  obtain rs w where i: "h_install h d (world s) = (rs, w)" by (cases "h_install h d (world s)")
  then have "handleRequest h (Discover d) s = sendAll h rs (s\<lparr>world := w\<rparr>)"
    by (simp add: handleRequest_def)
  with i sendAll_effect [of h rs "s\<lparr>world := w\<rparr>"] show ?thesis
    by (auto intro: extends_from_world)
qed

lemma handleRequest_CloseProject:
  "fst (handleRequest h (CloseProject c) s) = Inr () \<and>
   extends s (fst (h_closeProject h c (world s))) [] (snd (handleRequest h (CloseProject c) s))"
proof -
  obtain rs w where i: "h_closeProject h c (world s) = (rs, w)"
    by (cases "h_closeProject h c (world s)")
  then have "handleRequest h (CloseProject c) s = sendAll h rs (s\<lparr>world := w\<rparr>)"
    by (simp add: handleRequest_def)
  with i sendAll_effect [of h rs "s\<lparr>world := w\<rparr>"] show ?thesis
    by (auto intro: extends_from_world)
qed

lemma handleRequest_TypesRegistryRequest:
  "fst (handleRequest h TypesRegistryRequest s) = Inr () \<and>
   extends s [TypesRegistryResponse (typesRegistryObject (typesRegistry s))] []
     (snd (handleRequest h TypesRegistryRequest s))"
  using sendResponse_effect [of h "TypesRegistryResponse (typesRegistryObject (typesRegistry s))" s]
  by (simp add: handleRequest_def)

lemma handleRequest_InspectValue:
  "fst (handleRequest h (InspectValue f) s) = Inr () \<and>
   extends s [ValueInspected (fst (h_inspectModule h f (world s)))] []
     (snd (handleRequest h (InspectValue f) s))"
proof -
  obtain v w where i: "h_inspectModule h f (world s) = (v, w)"
    by (cases "h_inspectModule h f (world s)")
  then have "handleRequest h (InspectValue f) s = sendResponse h (ValueInspected v) (s\<lparr>world := w\<rparr>)"
    by (simp add: handleRequest_def)
  with i sendResponse_effect [of h "ValueInspected v" "s\<lparr>world := w\<rparr>"] show ?thesis
    by (auto intro: extends_from_world)
qed

lemma handleRequest_InstallPackage_unresolved:
  assumes "resolvedCwd h fileName projectRootPath (world s) = None"
  shows "handleRequest h (InstallPackage fileName packageName projectName projectRootPath) s =
           sendResponse h
             (PackageInstalled projectName False ''Could not determine a project root path.'') s"
  using assms
  by (simp add: handleRequest_def resolvedCwd_def split: option.splits if_splits)

lemma handleRequest_InstallPackage_resolved:
  assumes "resolvedCwd h fileName projectRootPath (world s) = Some cwd"
  shows "handleRequest h (InstallPackage fileName packageName projectName projectRootPath) s =
           installWorker h (- 1) [packageName] cwd
             (\<lambda>success. sendResponse h
                (PackageInstalled projectName success
                   (installPackageMessage success packageName))) s"
  using assms
  by (simp add: handleRequest_def resolvedCwd_def split: option.splits if_splits)

lemma handleRequest_InstallPackage:
  "\<exists>out calls. extends s out calls
       (snd (handleRequest h (InstallPackage fileName packageName projectName projectRootPath) s)) \<and>
     (\<forall>c \<in> set calls. fst c = npmPath s) \<and> (\<forall>r \<in> set out. \<not> isInitializationFailed r)"
proof (cases "resolvedCwd h fileName projectRootPath (world s)")
  case None
  show ?thesis
    using sendResponse_effect
      [of h "PackageInstalled projectName False ''Could not determine a project root path.''" s]
    unfolding handleRequest_InstallPackage_unresolved [OF None]
    by (intro exI [of _ "[PackageInstalled projectName False ''Could not determine a project root path.'']"]
        exI [of _ "[]"]) simp
next
  case (Some cwd)
  let ?k = "\<lambda>success. sendResponse h
                (PackageInstalled projectName success
                   (installPackageMessage success packageName))"
  let ?call = "(npmPath s, ''install'' # ''--ignore-scripts'' # [packageName], cwd)"
  obtain s1 where e1: "extends s [] [?call] s1"
    and c: "(\<exists>e. installWorker h (- 1) [packageName] cwd ?k s = (Inl e, s1)) \<or>
      (\<exists>b s2. extends s1 [] [] s2 \<and> installWorker h (- 1) [packageName] cwd ?k s = ?k b s2)"
    using installWorker_effect [of s "[packageName]" cwd h "- 1" ?k] by blast
  from c show ?thesis
  proof
    assume "\<exists>e. installWorker h (- 1) [packageName] cwd ?k s = (Inl e, s1)"
    then show ?thesis
      unfolding handleRequest_InstallPackage_resolved [OF Some] using e1
      by (intro exI [of _ "[]"] exI [of _ "[?call]"]) auto
  next
    assume "\<exists>b s2. extends s1 [] [] s2 \<and> installWorker h (- 1) [packageName] cwd ?k s = ?k b s2"
    then obtain b s2 where e2: "extends s1 [] [] s2"
      and w: "installWorker h (- 1) [packageName] cwd ?k s = ?k b s2" by blast
    let ?r = "PackageInstalled projectName b (installPackageMessage b packageName)"
    have "extends s2 [?r] [] (snd (?k b s2))" using sendResponse_effect [of h ?r s2] by simp
    then have "extends s [?r] [?call] (snd (?k b s2))"
      using extends_trans [OF extends_trans1 [OF e1 e2], of "[?r]" "[]"] by simp
    then show ?thesis
      unfolding handleRequest_InstallPackage_resolved [OF Some] w
      by (intro exI [of _ "[?r]"] exI [of _ "[?call]"]) simp
  qed
qed

lemma handleRequest_effect:
  assumes "\<forall>d w. \<forall>r \<in> set (fst (h_install h d w)). \<not> isInitializationFailed r"
    and "\<forall>c w. \<forall>r \<in> set (fst (h_closeProject h c w)). \<not> isInitializationFailed r"
  shows "\<exists>out calls. extends s out calls (snd (handleRequest h req s)) \<and>
     (\<forall>c \<in> set calls. fst c = npmPath s) \<and> (\<forall>r \<in> set out. \<not> isInitializationFailed r)"
proof (cases req)
  case (Discover d)
  show ?thesis unfolding Discover
    using handleRequest_Discover [of h d s] assms(1)
    by (intro exI [of _ "fst (h_install h d (world s))"] exI [of _ "[]"]) simp
next
  case (CloseProject c)
  show ?thesis unfolding CloseProject
    using handleRequest_CloseProject [of h c s] assms(2)
    by (intro exI [of _ "fst (h_closeProject h c (world s))"] exI [of _ "[]"]) simp
next
  case TypesRegistryRequest
  show ?thesis unfolding TypesRegistryRequest
    using handleRequest_TypesRegistryRequest [of h s]
    by (intro exI [of _ "[TypesRegistryResponse (typesRegistryObject (typesRegistry s))]"] exI [of _ "[]"]) simp
next
  case (InstallPackage fileName packageName projectName projectRootPath)
  show ?thesis unfolding InstallPackage by (rule handleRequest_InstallPackage)
next
  case (InspectValue f)
  show ?thesis unfolding InspectValue
    using handleRequest_InspectValue [of h f s]
    by (intro exI [of _ "[ValueInspected (fst (h_inspectModule h f (world s)))]"] exI [of _ "[]"]) simp
qed

lemma onMessage_effect:
  assumes "\<forall>d w. \<forall>r \<in> set (fst (h_install h d w)). \<not> isInitializationFailed r"
    and "\<forall>c w. \<forall>r \<in> set (fst (h_closeProject h c w)). \<not> isInitializationFailed r"
  shows "\<exists>out. outbound (snd (onMessage h req s)) = outbound s @ pendingResponses s @ out \<and>
     (\<forall>r \<in> set out. \<not> isInitializationFailed r) \<and>
     delayedInitializationError (snd (onMessage h req s)) = None"
proof -
  let ?s1 = "snd (reportInitializationFailed h s)"
  obtain out calls where e: "extends ?s1 out calls (snd (handleRequest h req ?s1))"
    and n: "\<forall>r \<in> set out. \<not> isInitializationFailed r"
    using handleRequest_effect [OF assms, of ?s1 req] by blast
  from e reportInitializationFailed_state [of h s] n show ?thesis
    by (intro exI [of _ out]) (simp add: onMessage_unfold extends_def)
qed

lemma listen_after_first:
  assumes "\<forall>d w. \<forall>r \<in> set (fst (h_install h d w)). \<not> isInitializationFailed r"
    and "\<forall>c w. \<forall>r \<in> set (fst (h_closeProject h c w)). \<not> isInitializationFailed r"
    and "delayedInitializationError s = None"
  shows "\<exists>out. outbound (listen h handler reqs s) = outbound s @ out \<and>
     (\<forall>r \<in> set out. \<not> isInitializationFailed r) \<and>
     delayedInitializationError (listen h handler reqs s) = None"
  using assms(3)
proof (induction reqs arbitrary: s)
  case Nil
  then show ?case by simp
next
  case (Cons req reqs)
  obtain r s1 where m: "onMessage h req s = (r, s1)" by (cases "onMessage h req s")
  obtain out1 where o1: "outbound s1 = outbound s @ out1"
    and n1: "\<forall>r \<in> set out1. \<not> isInitializationFailed r"
    and d1: "delayedInitializationError s1 = None"
    using onMessage_effect [OF assms(1,2), of req s] Cons.prems
    by (auto simp: m pendingResponses_def)
  show ?case
  proof (cases r)
    case (Inr u)
    obtain out2 where "outbound (listen h handler reqs s1) = outbound s1 @ out2"
      and "\<forall>r \<in> set out2. \<not> isInitializationFailed r"
      and "delayedInitializationError (listen h handler reqs s1) = None"
      using Cons.IH [OF d1] by blast
    with o1 n1 Inr m show ?thesis
      by (intro exI [of _ "out1 @ out2"]) auto
  next
    case (Inl e)
    show ?thesis
    proof (cases handler)
      case False
      with Inl m o1 n1 d1 show ?thesis by (intro exI [of _ out1]) simp
    next
      case True
      let ?s2 = "snd (writeLine h
                          (''Unhandled exception: '' @ err_name e @ '': '' @ err_message e
                             @ '' at '' @ err_stack e) s1)"
      have o2: "outbound ?s2 = outbound s1" and d2: "delayedInitializationError ?s2 = None"
        using writeLine_state [of h _ s1] d1 by auto
      obtain out2 where "outbound (listen h handler reqs ?s2) = outbound ?s2 @ out2"
        and "\<forall>r \<in> set out2. \<not> isInitializationFailed r"
        and "delayedInitializationError (listen h handler reqs ?s2) = None"
        using Cons.IH [OF d2] by blast
      with o1 o2 n1 Inl m True show ?thesis
        by (intro exI [of _ "out1 @ out2"]) auto
    qed
  qed
qed

text \<open>
  C3. When no directory of the ancestor chain of the file holds a \<^verbatim>\<open>package.json\<close> (in the
  world the listener resolves it in, after the stored failure has been reported) and the
  request has no \<^verbatim>\<open>projectRootPath\<close>, the listener does nothing but send the response with
  \<^verbatim>\<open>success: false\<close> and the message "Could not determine a project root path.": it
  returns, that response is the last message sent, after the stored failure if there was
  one, and no child process is launched.
\<close>

theorem installPackage_without_project_root:
  assumes "\<forall>d \<in> set (ancestorDirectories (getDirectoryPath fileName)).
             \<not> h_fileExists h (combinePaths d ''package.json'')
                 (world (snd (reportInitializationFailed h s)))"
  shows "onMessage h (InstallPackage fileName packageName projectName None) s =
           sendResponse h
             (PackageInstalled projectName False ''Could not determine a project root path.'')
             (snd (reportInitializationFailed h s)) \<and>
         fst (onMessage h (InstallPackage fileName packageName projectName None) s) = Inr () \<and>
         outbound (snd (onMessage h (InstallPackage fileName packageName projectName None) s)) =
           outbound s @ pendingResponses s
             @ [PackageInstalled projectName False ''Could not determine a project root path.''] \<and>
         execCalls (snd (onMessage h (InstallPackage fileName packageName projectName None) s)) =
           execCalls s"
proof -
  let ?s1 = "snd (reportInitializationFailed h s)"
  let ?r = "PackageInstalled projectName False ''Could not determine a project root path.''"
  have "getDirectoryOfPackageJson h fileName (world ?s1) = None"
    using assms by (simp add: getDirectoryOfPackageJson_find find_None_iff)
  then have "resolvedCwd h fileName None (world ?s1) = None" by (simp add: resolvedCwd_def)
  then have u: "onMessage h (InstallPackage fileName packageName projectName None) s =
                  sendResponse h ?r ?s1"
    by (simp only: onMessage_unfold handleRequest_InstallPackage_unresolved)
  from sendResponse_effect [of h ?r ?s1] reportInitializationFailed_state [of h s]
  show ?thesis unfolding u by (simp add: extends_def)
qed

theorem installPackage_without_project_root_witness:
  "onMessage (sampleHost [] (Inr ''ok'') [] []) (InstallPackage ''/a/b/c/file.ts'' ''lodash'' ''proj'' None)
      (sampleInstaller None (Some ''npm failed'')) =
     (Inr (), (sampleInstaller None None)
        \<lparr>outbound := [InitializationFailed ''npm failed'',
            PackageInstalled ''proj'' False ''Could not determine a project root path.'']\<rparr>)"
  using installPackage_without_project_root
    [of "''/a/b/c/file.ts''" "sampleHost [] (Inr ''ok'') [] []" "sampleInstaller None (Some ''npm failed'')"
        "''lodash''" "''proj''"]
  by (simp add: reportInitializationFailed_def action_defs sample_defs)

text \<open>
  C2. The constructor sends nothing: a failure of the registry update is only stored. Once
  the listener has received a first request, whatever the requests that follow, the
  messages sent since listening began are the stored failure, if there was one, followed by
  messages that are no \<^verbatim>\<open>initializationFailed\<close> response; and the stored failure is absent
  after the first request and after every later one. The base class methods are taken not
  to send \<^verbatim>\<open>initializationFailed\<close> responses of their own.
\<close>

theorem initializationFailed_sent_first_and_once:
  assumes "\<forall>d w. \<forall>r \<in> set (fst (h_install h d w)). \<not> isInitializationFailed r"
    and "\<forall>c w. \<forall>r \<in> set (fst (h_closeProject h c w)). \<not> isInitializationFailed r"
  shows "outbound (snd (newNodeTypingsInstaller h g npmLocation log w)) = [] \<and>
    (\<exists>out. outbound (listen h handler (req # reqs) s) = outbound s @ pendingResponses s @ out \<and>
       (\<forall>r \<in> set out. \<not> isInitializationFailed r)) \<and>
     delayedInitializationError (snd (onMessage h req s)) = None \<and>
     delayedInitializationError (listen h handler (req # reqs) s) = None"
proof -
  have ctor: "outbound (snd (newNodeTypingsInstaller h g npmLocation log w)) = []"
    using newNodeTypingsInstaller_effect [of h g npmLocation log w] by auto
  obtain r s1 where m: "onMessage h req s = (r, s1)" by (cases "onMessage h req s")
  obtain out1 where o1: "outbound s1 = outbound s @ pendingResponses s @ out1"
    and n1: "\<forall>r \<in> set out1. \<not> isInitializationFailed r"
    and d1: "delayedInitializationError s1 = None"
    using onMessage_effect [OF assms, of req s] by (auto simp: m)
  define s2 where "s2 = (case r of Inr u \<Rightarrow> s1 | Inl e \<Rightarrow> snd (writeLine h
                          (''Unhandled exception: '' @ err_name e @ '': '' @ err_message e
                             @ '' at '' @ err_stack e) s1))"
  have o2: "outbound s2 = outbound s1" and d2: "delayedInitializationError s2 = None"
    using writeLine_state [of h _ s1] d1 by (auto simp: s2_def split: sum.splits)
  obtain out2 where l: "outbound (listen h handler reqs s2) = outbound s2 @ out2"
    and n2: "\<forall>r \<in> set out2. \<not> isInitializationFailed r"
    and d3: "delayedInitializationError (listen h handler reqs s2) = None"
    using listen_after_first [OF assms d2] by blast
  have "(\<exists>out. outbound (listen h handler (req # reqs) s) = outbound s @ pendingResponses s @ out \<and>
       (\<forall>r \<in> set out. \<not> isInitializationFailed r)) \<and>
     delayedInitializationError (snd (onMessage h req s)) = None \<and>
     delayedInitializationError (listen h handler (req # reqs) s) = None"
  proof (cases "\<exists>e. r = Inl e \<and> \<not> handler")
    case True
    then have "listen h handler (req # reqs) s = s1" using m by auto
    with o1 n1 d1 m show ?thesis by auto
  next
    case False
    then have "listen h handler (req # reqs) s = listen h handler reqs s2"
      using m by (cases r) (auto simp: s2_def)
    moreover have "outbound (listen h handler reqs s2) = outbound s @ pendingResponses s @ (out1 @ out2)"
      using l o2 o1 by simp
    moreover have "\<forall>r \<in> set (out1 @ out2). \<not> isInitializationFailed r" using n1 n2 by auto
    ultimately show ?thesis using d1 d3 m by (metis snd_conv)
  qed
  with ctor show ?thesis by blast
qed

theorem initializationFailed_sent_first_and_once_witness:
  "outbound (listen (sampleHost [] (Inr ''ok'') [OtherResponse ''action::set'' JNull] []) True
      [Discover JNull, TypesRegistryRequest, CloseProject JNull]
      (sampleInstaller None (Some ''npm failed''))) =
     [InitializationFailed ''npm failed'', OtherResponse ''action::set'' JNull,
      TypesRegistryResponse [(''lodash'', JObject [(''latest'', JString ''4.0'')])]] \<and>
   delayedInitializationError
     (listen (sampleHost [] (Inr ''ok'') [OtherResponse ''action::set'' JNull] []) True
        [Discover JNull, TypesRegistryRequest, CloseProject JNull]
        (sampleInstaller None (Some ''npm failed''))) = None"
  using initializationFailed_sent_first_and_once
    [of "sampleHost [] (Inr ''ok'') [OtherResponse ''action::set'' JNull] []" "''/cache''" None None
        "[]" True "Discover JNull" "[TypesRegistryRequest, CloseProject JNull]"
        "sampleInstaller None (Some ''npm failed'')"]
  by (simp add: onMessage_def reportInitializationFailed_def handleRequest_def
     typesRegistryObject_def action_defs sample_defs)

lemma handleRequest_one_response:
  assumes "\<forall>d w. length (fst (h_install h d w)) = 1"
    and "\<forall>c w. length (fst (h_closeProject h c w)) = 1"
    and "\<forall>file args cwd w e. fst (h_execFileSync h file args cwd w) = Inl e \<longrightarrow>
             err_stdout e \<noteq> None \<and> err_stderr e \<noteq> None"
  shows "fst (handleRequest h req s) = Inr () \<and>
         length (outbound (snd (handleRequest h req s))) = length (outbound s) + 1 \<and>
         delayedInitializationError (snd (handleRequest h req s)) = delayedInitializationError s"
proof (cases req)
  case (Discover d)
  with handleRequest_Discover [of h d s] assms(1) show ?thesis by (simp add: extends_def)
next
  case (CloseProject c)
  with handleRequest_CloseProject [of h c s] assms(2) show ?thesis by (simp add: extends_def)
next
  case TypesRegistryRequest
  with handleRequest_TypesRegistryRequest [of h s] show ?thesis by (simp add: extends_def)
next
  case (InspectValue f)
  with handleRequest_InspectValue [of h f s] show ?thesis by (simp add: extends_def)
next
  case (InstallPackage fileName packageName projectName projectRootPath)
  show ?thesis
  proof (cases "resolvedCwd h fileName projectRootPath (world s)")
    case None
    let ?r = "PackageInstalled projectName False ''Could not determine a project root path.''"
    show ?thesis
      unfolding InstallPackage handleRequest_InstallPackage_unresolved [OF None]
      using sendResponse_effect [of h ?r s] by (simp add: extends_def)
  next
    case (Some cwd)
    let ?k = "\<lambda>success. sendResponse h
                (PackageInstalled projectName success
                   (installPackageMessage success packageName))"
    obtain b s2 where e2: "extends s [] [(npmPath s, ''install'' # ''--ignore-scripts'' # [packageName], cwd)] s2"
      and w: "installWorker h (- 1) [packageName] cwd ?k s = ?k b s2"
      using installWorker_returns [OF assms(3), of s "[packageName]" cwd "- 1" ?k] by blast
    let ?r = "PackageInstalled projectName b (installPackageMessage b packageName)"
    show ?thesis
      unfolding InstallPackage handleRequest_InstallPackage_resolved [OF Some] w
      using sendResponse_effect [of h ?r s2] e2 by (simp add: extends_def)
  qed
qed

lemma onMessage_one_response:
  assumes "\<forall>d w. length (fst (h_install h d w)) = 1"
    and "\<forall>c w. length (fst (h_closeProject h c w)) = 1"
    and "\<forall>file args cwd w e. fst (h_execFileSync h file args cwd w) = Inl e \<longrightarrow>
             err_stdout e \<noteq> None \<and> err_stderr e \<noteq> None"
  shows "fst (onMessage h req s) = Inr () \<and>
         length (outbound (snd (onMessage h req s))) =
           length (outbound s) + length (pendingResponses s) + 1 \<and>
         delayedInitializationError (snd (onMessage h req s)) = None"
  using handleRequest_one_response [OF assms, of req "snd (reportInitializationFailed h s)"]
    reportInitializationFailed_state [of h s]
  by (simp add: onMessage_unfold)

lemma listen_one_response_per_request:
  assumes "\<forall>d w. length (fst (h_install h d w)) = 1"
    and "\<forall>c w. length (fst (h_closeProject h c w)) = 1"
    and "\<forall>file args cwd w e. fst (h_execFileSync h file args cwd w) = Inl e \<longrightarrow>
             err_stdout e \<noteq> None \<and> err_stderr e \<noteq> None"
  shows "length (outbound (listen h handler reqs s)) =
           length (outbound s) + (if reqs = [] then 0 else length (pendingResponses s))
             + length reqs"
proof (induction reqs arbitrary: s)
  case Nil
  then show ?case by simp
next
  case (Cons req reqs)
  obtain s1 where m: "onMessage h req s = (Inr (), s1)"
    and o: "length (outbound s1) = length (outbound s) + length (pendingResponses s) + 1"
    and d: "delayedInitializationError s1 = None"
    using onMessage_one_response [OF assms, of req s] by (cases "onMessage h req s") auto
  from d have "pendingResponses s1 = []" by (simp add: pendingResponses_def)
  with Cons [of s1] o m show ?case by simp
qed

text \<open>
  C1. When each of the two base class methods sends one response and every error a child
  process throws carries \<^verbatim>\<open>stdout\<close> and \<^verbatim>\<open>stderr\<close>, the messages sent are one per request,
  after the stored failure if there was one (\<open>listen_one_response_per_request\<close>). When the
  executable of an \<^verbatim>\<open>installPackage\<close> request cannot be spawned, \<^verbatim>\<open>execFileSyncAndLog\<close>
  throws, as in C4, the listener throws before it sends the response, and the request
  gets none. Below, \<^verbatim>\<open>/project/package.json\<close> exists and the launch of \<^verbatim>\<open>npm\<close> fails with
  \<open>spawnError\<close>: with the handler for uncaught exceptions registered, two requests get one
  response, that of the second; without it, the one request gets none.
\<close>

theorem listen_drops_response_when_spawn_fails:
  "outbound (listen (sampleHost [(''/project/package.json'', ''{}'')] (Inl spawnError) [] []) True
       [InstallPackage ''/project/src/a.ts'' ''lodash'' ''proj'' None, TypesRegistryRequest]
       (sampleInstaller (Some ''/tmp/ti.log'') None)) =
     [TypesRegistryResponse [(''lodash'', JObject [(''latest'', JString ''4.0'')])]] \<and>
   outbound (listen (sampleHost [(''/project/package.json'', ''{}'')] (Inl spawnError) [] []) False
       [InstallPackage ''/project/src/a.ts'' ''lodash'' ''proj'' None]
       (sampleInstaller None None)) = []"
  by (simp add: onMessage_def reportInitializationFailed_def handleRequest_def
     typesRegistryObject_def getDirectoryOfPackageJson_find ancestorDirectories.simps path_defs
     installWorker_def installNpmPackages_def execFileSyncAndLog_def action_defs sample_defs)

section \<open>The executable of every child process\<close>

lemma handleRequest_calls:
  "\<exists>out calls. extends s out calls (snd (handleRequest h req s)) \<and>
     (\<forall>c \<in> set calls. fst c = npmPath s)"
proof (cases req)
  case (Discover d)
  show ?thesis unfolding Discover
    using handleRequest_Discover [of h d s]
    by (intro exI [of _ "fst (h_install h d (world s))"] exI [of _ "[]"]) simp
next
  case (CloseProject c)
  show ?thesis unfolding CloseProject
    using handleRequest_CloseProject [of h c s]
    by (intro exI [of _ "fst (h_closeProject h c (world s))"] exI [of _ "[]"]) simp
next
  case TypesRegistryRequest
  show ?thesis unfolding TypesRegistryRequest
    using handleRequest_TypesRegistryRequest [of h s]
    by (intro exI [of _ "[TypesRegistryResponse (typesRegistryObject (typesRegistry s))]"] exI [of _ "[]"]) simp
next
  case (InstallPackage fileName packageName projectName projectRootPath)
  show ?thesis unfolding InstallPackage
    using handleRequest_InstallPackage [of s h fileName packageName projectName projectRootPath]
    by blast
next
  case (InspectValue f)
  show ?thesis unfolding InspectValue
    using handleRequest_InspectValue [of h f s]
    by (intro exI [of _ "[ValueInspected (fst (h_inspectModule h f (world s)))]"] exI [of _ "[]"]) simp
qed

lemma onMessage_calls:
  "\<exists>calls. execCalls (snd (onMessage h req s)) = execCalls s @ calls \<and>
     (\<forall>c \<in> set calls. fst c = npmPath s) \<and> npmPath (snd (onMessage h req s)) = npmPath s"
proof -
  let ?s1 = "snd (reportInitializationFailed h s)"
  obtain out calls where e: "extends ?s1 out calls (snd (handleRequest h req ?s1))"
    and n: "\<forall>c \<in> set calls. fst c = npmPath ?s1"
    using handleRequest_calls [of ?s1 h req] by blast
  from e n reportInitializationFailed_state [of h s] show ?thesis
    by (intro exI [of _ calls]) (simp add: onMessage_unfold extends_def)
qed

lemma writeLine_calls:
  "execCalls (snd (writeLine h t s)) = execCalls s \<and> npmPath (snd (writeLine h t s)) = npmPath s"
  using logging_snd [OF logging_writeLine, of s h t] by (simp add: extends_def)

lemma listen_calls:
  "\<exists>calls. execCalls (listen h handler reqs s) = execCalls s @ calls \<and>
     (\<forall>c \<in> set calls. fst c = npmPath s) \<and> npmPath (listen h handler reqs s) = npmPath s"
proof (induction reqs arbitrary: s)
  case Nil
  then show ?case by simp
next
  case (Cons req reqs)
  obtain r s1 where m: "onMessage h req s = (r, s1)" by (cases "onMessage h req s")
  obtain calls1 where c1: "execCalls s1 = execCalls s @ calls1"
    and f1: "\<forall>c \<in> set calls1. fst c = npmPath s" and n1: "npmPath s1 = npmPath s"
    using onMessage_calls [of h req s] by (auto simp: m)
  define s2 where "s2 = (case r of Inr u \<Rightarrow> s1 | Inl e \<Rightarrow> snd (writeLine h
                          (''Unhandled exception: '' @ err_name e @ '': '' @ err_message e
                             @ '' at '' @ err_stack e) s1))"
  have c2: "execCalls s2 = execCalls s1" and n2: "npmPath s2 = npmPath s1"
    using writeLine_calls [of h _ s1] by (auto simp: s2_def split: sum.splits)
  obtain calls2 where c3: "execCalls (listen h handler reqs s2) = execCalls s2 @ calls2"
    and f3: "\<forall>c \<in> set calls2. fst c = npmPath s2"
    and n3: "npmPath (listen h handler reqs s2) = npmPath s2"
    using Cons [of s2] by blast
  show ?case
  proof (cases "\<exists>e. r = Inl e \<and> \<not> handler")
    case True
    then have "listen h handler (req # reqs) s = s1" using m by auto
    with c1 f1 n1 show ?thesis by auto
  next
    case False
    then have "listen h handler (req # reqs) s = listen h handler reqs s2"
      using m by (cases r) (auto simp: s2_def)
    moreover have "execCalls (listen h handler reqs s2) = execCalls s @ (calls1 @ calls2)"
      using c3 c2 c1 by simp
    moreover have "\<forall>c \<in> set (calls1 @ calls2). fst c = npmPath s"
      using f1 f3 n2 n1 by auto
    ultimately show ?thesis using n3 n2 n1 by (intro exI [of _ "calls1 @ calls2"]) simp
  qed
qed

text \<open>
  C8. The constructor stores the resolved path wrapped in double quotes when it contains a
  space and does not start with a double quote, and unchanged otherwise (a path without a
  space, or one that already starts with the quote). The child process the constructor
  launches, and every child process launched for the requests received afterwards, has
  the stored path as its executable.
\<close>

theorem npmPath_quoted_before_launch:
  "npmPath (snd (newNodeTypingsInstaller h g npmLocation log w)) =
     (if CHR '' '' \<in> set (resolvedNpmPath h npmLocation) \<and>
         take 1 (resolvedNpmPath h npmLocation) \<noteq> [CHR 0x22]
      then [CHR 0x22] @ resolvedNpmPath h npmLocation @ [CHR 0x22]
      else resolvedNpmPath h npmLocation) \<and>
   map fst (execCalls (snd (newNodeTypingsInstaller h g npmLocation log w))) =
     [npmPath (snd (newNodeTypingsInstaller h g npmLocation log w))] \<and>
   (\<forall>c \<in> set (execCalls (listen h handler reqs (snd (newNodeTypingsInstaller h g npmLocation log w)))).
      fst c = npmPath (snd (newNodeTypingsInstaller h g npmLocation log w)))"
proof -
  let ?s = "snd (newNodeTypingsInstaller h g npmLocation log w)"
  obtain calls where "execCalls (listen h handler reqs ?s) = execCalls ?s @ calls"
    and "\<forall>c \<in> set calls. fst c = npmPath ?s"
    using listen_calls [of h handler reqs ?s] by blast
  with newNodeTypingsInstaller_effect [of h g npmLocation log w] show ?thesis
    by (auto simp: quotedNpmPath_def stringContains_space)
qed

theorem npmPath_quoted_before_launch_witness:
  "npmPath (snd (newNodeTypingsInstaller (sampleHost [] (Inr ''ok'') [] []) ''/cache''
       (Some (''C:'' @ [CHR 0x5C] @ ''Program Files'' @ [CHR 0x5C] @ ''npm'')) None [])) =
     [CHR 0x22] @ ''C:'' @ [CHR 0x5C] @ ''Program Files'' @ [CHR 0x5C] @ ''npm'' @ [CHR 0x22] \<and>
   npmPath (snd (newNodeTypingsInstaller (sampleHost [] (Inr ''ok'') [] []) ''/cache''
       (Some ([CHR 0x22] @ ''/opt/my tools/npm'' @ [CHR 0x22])) None [])) =
     [CHR 0x22] @ ''/opt/my tools/npm'' @ [CHR 0x22] \<and>
   npmPath (snd (newNodeTypingsInstaller (sampleHost [] (Inr ''ok'') [] []) ''/cache''
       (Some ''/usr/bin/npm'') None [])) = ''/usr/bin/npm'' \<and>
   npmPath (snd (newNodeTypingsInstaller (sampleHost [] (Inr ''ok'') [] []) ''/cache''
       None None [])) = [CHR 0x22] @ ''/usr/bin/npm'' @ [CHR 0x22]"
  using npmPath_quoted_before_launch
    [of "sampleHost [] (Inr ''ok'') [] []" "''/cache''"
        "Some (''C:'' @ [CHR 0x5C] @ ''Program Files'' @ [CHR 0x5C] @ ''npm'')" None "[]" True "[]"]
    npmPath_quoted_before_launch
    [of "sampleHost [] (Inr ''ok'') [] []" "''/cache''"
        "Some ([CHR 0x22] @ ''/opt/my tools/npm'' @ [CHR 0x22])" None "[]" True "[]"]
    npmPath_quoted_before_launch
    [of "sampleHost [] (Inr ''ok'') [] []" "''/cache''" "Some ''/usr/bin/npm''" None "[]" True "[]"]
    npmPath_quoted_before_launch
    [of "sampleHost [] (Inr ''ok'') [] []" "''/cache''" None None "[]" True "[]"]
  by (simp add: resolvedNpmPath_def getDefaultNPMLocation_def sampleHost_def path_defs)

section \<open>FileLog: a failed write disables the log for good\<close>

lemma onMessage_log:
  "logFile (snd (onMessage h req s)) = None \<or> logFile (snd (onMessage h req s)) = logFile s"
proof -
  let ?s1 = "snd (reportInitializationFailed h s)"
  obtain out calls where e: "extends ?s1 out calls (snd (handleRequest h req ?s1))"
    using handleRequest_calls [of ?s1 h req] by blast
  from e reportInitializationFailed_state [of h s] show ?thesis
    by (auto simp: onMessage_unfold extends_def)
qed

lemma listen_log_disabled:
  "logFile s = None \<Longrightarrow> logFile (listen h handler reqs s) = None"
proof (induction reqs arbitrary: s)
  case Nil
  then show ?case by simp
next
  case (Cons req reqs)
  obtain r s1 where m: "onMessage h req s = (r, s1)" by (cases "onMessage h req s")
  have l1: "logFile s1 = None" using onMessage_log [of h req s] Cons.prems by (simp add: m)
  show ?case
  proof (cases r)
    case (Inr u)
    with m Cons.IH [OF l1] show ?thesis by simp
  next
    case (Inl e)
    have "logFile (snd (writeLine h t s1)) = None" for t
      using l1 by (simp add: writeLine_disabled)
    then have "logFile (listen h handler reqs (snd (writeLine h t s1))) = None" for t
      by (rule Cons.IH)
    with Inl m l1 show ?thesis by (cases handler) simp_all
  qed
qed

text \<open>
  C9. No sequence of \<^verbatim>\<open>writeLine\<close> calls throws, whatever the appends do. When the log is
  enabled and the append of a \<^verbatim>\<open>writeLine\<close> call throws, the call returns, the log is
  disabled after it, every later sequence of \<^verbatim>\<open>writeLine\<close> calls returns and leaves the
  state (the log file and the world included) as it was, and the log is still disabled
  after any requests the listener handles from there.
\<close>

theorem FileLog_disabled_after_first_failure:
  "fst (writeLines h ts0 s0) = Inr () \<and>
   (logFile s = Some file \<and>
    fst (h_appendFileSync h file
           (''['' @ h_nowString h (world s) @ ''] '' @ t @ h_newLine h) (world s)) = Some e \<longrightarrow>
      fst (writeLine h t s) = Inr () \<and>
      \<not> isEnabled (snd (writeLine h t s)) \<and>
      writeLines h ts (snd (writeLine h t s)) = (Inr (), snd (writeLine h t s)) \<and>
      \<not> isEnabled (listen h handler reqs (snd (writeLine h t s))))"
proof (intro conjI impI)
  show "fst (writeLines h ts0 s0) = Inr ()" by (rule writeLines_returns)
next
  assume a: "logFile s = Some file \<and>
    fst (h_appendFileSync h file
           (''['' @ h_nowString h (world s) @ ''] '' @ t @ h_newLine h) (world s)) = Some e"
  then have off: "logFile (snd (writeLine h t s)) = None"
    by (auto intro: writeLine_failure)
  show "fst (writeLine h t s) = Inr ()" by (rule writeLine_returns)
  show "\<not> isEnabled (snd (writeLine h t s))" using off by (simp add: isEnabled_def)
  show "writeLines h ts (snd (writeLine h t s)) = (Inr (), snd (writeLine h t s))"
    using off by (rule writeLines_disabled)
  show "\<not> isEnabled (listen h handler reqs (snd (writeLine h t s)))"
    using listen_log_disabled [OF off] by (simp add: isEnabled_def)
qed

theorem FileLog_disabled_after_first_failure_witness:
  "logFile (sampleInstaller (Some ''/readonly/ti.log'') None) = Some ''/readonly/ti.log'' \<and>
   isEnabled (sampleInstaller (Some ''/readonly/ti.log'') None) \<and>
   \<not> isEnabled (snd (writeLine (sampleHost [] (Inr []) [] []) ''first''
                       (sampleInstaller (Some ''/readonly/ti.log'') None))) \<and>
   writeLines (sampleHost [] (Inr []) [] []) [''second'', ''third'']
       (snd (writeLine (sampleHost [] (Inr []) [] []) ''first''
               (sampleInstaller (Some ''/readonly/ti.log'') None))) =
     (Inr (), snd (writeLine (sampleHost [] (Inr []) [] []) ''first''
                     (sampleInstaller (Some ''/readonly/ti.log'') None))) \<and>
   \<not> isEnabled (listen (sampleHost [] (Inr []) [] []) True [TypesRegistryRequest]
                   (snd (writeLine (sampleHost [] (Inr []) [] []) ''first''
                           (sampleInstaller (Some ''/readonly/ti.log'') None))))"
  using FileLog_disabled_after_first_failure
    [of "sampleHost [] (Inr []) [] []" "[]" "sampleInstaller None None"
        "sampleInstaller (Some ''/readonly/ti.log'') None" "''/readonly/ti.log''" "''first''"
        sampleError "[''second'', ''third'']" True "[TypesRegistryRequest]"]
  by (simp add: sampleHost_def sampleInstaller_def isEnabled_def)

end
